theory Spec2Isabelle
  imports Main "HOL-Library.Word"
begin

section \<open>The MultiSessionVotingSystem contract\<close>

text \<open>
  A shallow embedding of the Solidity contract \<^verbatim>\<open>MultiSessionVotingSystem\<close>.
  Storage is a record; a mapping is a total function whose unwritten slots hold the zero
  value; \<^verbatim>\<open>msg.sender\<close> and \<^verbatim>\<open>block.timestamp\<close> are explicit arguments. A call
  returns \<open>Inl\<close> of the error when it reverts and \<open>Inr\<close> of the new storage when it
  commits. Solidity 0.8 checks every \<^verbatim>\<open>uint256\<close> increment, so \<^verbatim>\<open>x++\<close> on the largest
  value reverts with a panic; values of type \<^verbatim>\<open>uint256\<close> are natural numbers and each
  increment carries that check.
\<close>

subsection \<open>Data\<close>

type_synonym address = "160 word"
type_synonym uint256 = nat

definition MAX_UINT256 :: uint256 where
  "MAX_UINT256 = 2 ^ 256 - 1"

datatype error = Revert string | Panic

record Candidate =
  id_c :: uint256
  name_c :: string
  voteCount :: uint256
  isActive_c :: bool

record VotingSession =
  sessionId :: uint256
  sessionName :: string
  startTime :: uint256
  endTime :: uint256
  isActive :: bool
  isCreated :: bool
  candidateCount :: uint256
  totalVotes :: uint256
  candidates :: "uint256 \<Rightarrow> Candidate"
  hasVoted :: "address \<Rightarrow> bool"
  voterChoice :: "address \<Rightarrow> uint256"

datatype event =
    SessionCreated uint256 string uint256 uint256
  | SessionStarted uint256
  | SessionEnded uint256
  | CandidateAdded uint256 uint256 string
  | CandidateUpdated uint256 uint256 string
  | CandidateRemoved uint256 uint256
  | VoteCast uint256 address uint256
  | VoterRegistered address

record storage =
  votingSessions :: "uint256 \<Rightarrow> VotingSession"
  registeredVoters :: "address \<Rightarrow> bool"
  sessionCount :: uint256
  owner :: address
  events :: "event list"

definition zeroCandidate :: Candidate where
  "zeroCandidate = \<lparr>id_c = 0, name_c = [], voteCount = 0, isActive_c = False\<rparr>"

definition zeroSession :: VotingSession where
  "zeroSession =
     \<lparr>sessionId = 0, sessionName = [], startTime = 0, endTime = 0, isActive = False,
      isCreated = False, candidateCount = 0, totalVotes = 0,
      candidates = (\<lambda>_. zeroCandidate), hasVoted = (\<lambda>_. False), voterChoice = (\<lambda>_. 0)\<rparr>"

definition constructor :: "address \<Rightarrow> storage" where
  "constructor sender =
     \<lparr>votingSessions = (\<lambda>_. zeroSession),
      registeredVoters = (\<lambda>_. False)(sender := True),
      sessionCount = 0,
      owner = sender,
      events = []\<rparr>"

subsection \<open>Modifiers and the activity query\<close>

definition isSessionActive :: "uint256 \<Rightarrow> storage \<Rightarrow> uint256 \<Rightarrow> bool" where
  "isSessionActive now s sid =
     (if sid = 0 \<or> sid > sessionCount s then False
      else if \<not> isCreated (votingSessions s sid) \<or> \<not> isActive (votingSessions s sid) then False
      else now \<ge> startTime (votingSessions s sid) \<and> now \<le> endTime (votingSessions s sid))"

definition onlyOwner :: "address \<Rightarrow> storage \<Rightarrow> error + 'a \<Rightarrow> error + 'a" where
  "onlyOwner sender s body =
     (if sender = owner s then body else Inl (Revert ''Only owner can perform this action''))"

definition sessionExists :: "uint256 \<Rightarrow> storage \<Rightarrow> error + 'a \<Rightarrow> error + 'a" where
  "sessionExists sid s body =
     (if \<not> (sid > 0 \<and> sid \<le> sessionCount s) then Inl (Revert ''Session does not exist'')
      else if \<not> isCreated (votingSessions s sid) then Inl (Revert ''Session not found'')
      else body)"

definition sessionNotActive :: "uint256 \<Rightarrow> uint256 \<Rightarrow> storage \<Rightarrow> error + 'a \<Rightarrow> error + 'a" where
  "sessionNotActive now sid s body =
     (if \<not> \<not> isSessionActive now s sid then Inl (Revert ''Cannot modify active session'')
      else body)"

subsection \<open>Owner functions\<close>

definition addCandidateToSession ::
  "address \<Rightarrow> uint256 \<Rightarrow> uint256 \<Rightarrow> string \<Rightarrow> storage \<Rightarrow> error + storage" where
  "addCandidateToSession sender now sid candidateName s =
     onlyOwner sender s (sessionExists sid s (sessionNotActive now sid s
       (if \<not> length candidateName > 0 then Inl (Revert ''Candidate name cannot be empty'')
        else if \<not> candidateCount (votingSessions s sid) < MAX_UINT256 then Inl Panic
        else
          let session = votingSessions s sid;
              n = candidateCount session + 1;
              session' = session
                \<lparr>candidateCount := n,
                 candidates := (candidates session)
                   (n := \<lparr>id_c = n, name_c = candidateName, voteCount = 0, isActive_c = True\<rparr>)\<rparr>
          in Inr (s\<lparr>votingSessions := (votingSessions s)(sid := session'),
                   events := events s @ [CandidateAdded sid n candidateName]\<rparr>))))"

text \<open>The loop of \<^verbatim>\<open>createSession\<close>: one internal call per name, in input order; the
  first call that reverts ends the whole call.\<close>

fun addCandidates :: "address \<Rightarrow> uint256 \<Rightarrow> string list \<Rightarrow> storage \<Rightarrow> error + storage" where
  "addCandidates sender now [] s = Inr s"
| "addCandidates sender now (n # ns) s =
     (case addCandidateToSession sender now (sessionCount s) n s of
        Inl e \<Rightarrow> Inl e
      | Inr s' \<Rightarrow> addCandidates sender now ns s')"

definition createSession ::
  "address \<Rightarrow> uint256 \<Rightarrow> string \<Rightarrow> uint256 \<Rightarrow> uint256 \<Rightarrow> string list \<Rightarrow> storage
     \<Rightarrow> error + (uint256 \<times> storage)" where
  "createSession sender now sname start end candidateNames s =
     onlyOwner sender s
       (if \<not> start < end then Inl (Revert ''Invalid time range'')
        else if \<not> length candidateNames > 0 then Inl (Revert ''At least one candidate required'')
        else if \<not> length sname > 0 then Inl (Revert ''Session name cannot be empty'')
        else if \<not> sessionCount s < MAX_UINT256 then Inl Panic
        else
          let n = sessionCount s + 1;
              newSession = (votingSessions s n)
                \<lparr>sessionId := n, sessionName := sname, startTime := start, endTime := end,
                 isActive := False, isCreated := True, candidateCount := 0, totalVotes := 0\<rparr>;
              s1 = s\<lparr>sessionCount := n, votingSessions := (votingSessions s)(n := newSession)\<rparr>
          in case addCandidates sender now candidateNames s1 of
               Inl e \<Rightarrow> Inl e
             | Inr s2 \<Rightarrow>
                 Inr (sessionCount s2,
                      s2\<lparr>events := events s2 @ [SessionCreated (sessionCount s2) sname start end]\<rparr>))"

definition updateCandidate ::
  "address \<Rightarrow> uint256 \<Rightarrow> uint256 \<Rightarrow> uint256 \<Rightarrow> string \<Rightarrow> storage \<Rightarrow> error + storage" where
  "updateCandidate sender now sid cid newName s =
     onlyOwner sender s (sessionExists sid s (sessionNotActive now sid s
       (if \<not> length newName > 0 then Inl (Revert ''Candidate name cannot be empty'')
        else
          let session = votingSessions s sid in
          if \<not> (cid > 0 \<and> cid \<le> candidateCount session) then Inl (Revert ''Invalid candidate ID'')
          else if \<not> isActive_c (candidates session cid) then Inl (Revert ''Candidate not active'')
          else
            let session' = session
                  \<lparr>candidates := (candidates session)
                     (cid := (candidates session cid)\<lparr>name_c := newName\<rparr>)\<rparr>
            in Inr (s\<lparr>votingSessions := (votingSessions s)(sid := session'),
                     events := events s @ [CandidateUpdated sid cid newName]\<rparr>))))"

definition removeCandidateFromSession ::
  "address \<Rightarrow> uint256 \<Rightarrow> uint256 \<Rightarrow> uint256 \<Rightarrow> storage \<Rightarrow> error + storage" where
  "removeCandidateFromSession sender now sid cid s =
     onlyOwner sender s (sessionExists sid s (sessionNotActive now sid s
       (let session = votingSessions s sid in
        if \<not> (cid > 0 \<and> cid \<le> candidateCount session) then Inl (Revert ''Invalid candidate ID'')
        else if \<not> isActive_c (candidates session cid) then Inl (Revert ''Candidate already inactive'')
        else
          let session' = session
                \<lparr>candidates := (candidates session)
                   (cid := (candidates session cid)\<lparr>isActive_c := False\<rparr>)\<rparr>
          in Inr (s\<lparr>votingSessions := (votingSessions s)(sid := session'),
                   events := events s @ [CandidateRemoved sid cid]\<rparr>))))"

definition startSession :: "address \<Rightarrow> uint256 \<Rightarrow> uint256 \<Rightarrow> storage \<Rightarrow> error + storage" where
  "startSession sender now sid s =
     onlyOwner sender s (sessionExists sid s
       (let session = votingSessions s sid in
        if \<not> \<not> isActive session then Inl (Revert ''Session already active'')
        else if \<not> now \<ge> startTime session then Inl (Revert ''Session start time not reached'')
        else if \<not> now < endTime session then Inl (Revert ''Session end time passed'')
        else Inr (s\<lparr>votingSessions := (votingSessions s)(sid := session\<lparr>isActive := True\<rparr>),
                   events := events s @ [SessionStarted sid]\<rparr>)))"

text \<open>\<^verbatim>\<open>endSession\<close> never reads \<^verbatim>\<open>block.timestamp\<close>, so it takes no time argument.\<close>

definition endSession :: "address \<Rightarrow> uint256 \<Rightarrow> storage \<Rightarrow> error + storage" where
  "endSession sender sid s =
     onlyOwner sender s (sessionExists sid s
       (let session = votingSessions s sid in
        if \<not> isActive session then Inl (Revert ''Session not active'')
        else Inr (s\<lparr>votingSessions := (votingSessions s)(sid := session\<lparr>isActive := False\<rparr>),
                   events := events s @ [SessionEnded sid]\<rparr>)))"

definition registerVoter :: "address \<Rightarrow> address \<Rightarrow> storage \<Rightarrow> error + storage" where
  "registerVoter sender voter s =
     onlyOwner sender s
       (if \<not> voter \<noteq> 0 then Inl (Revert ''Invalid voter address'')
        else if \<not> \<not> registeredVoters s voter then Inl (Revert ''Voter already registered'')
        else Inr (s\<lparr>registeredVoters := (registeredVoters s)(voter := True),
                   events := events s @ [VoterRegistered voter]\<rparr>))"

fun registerEach :: "address list \<Rightarrow> storage \<Rightarrow> storage" where
  "registerEach [] s = s"
| "registerEach (v # vs) s =
     registerEach vs
       (if \<not> registeredVoters s v \<and> v \<noteq> 0
        then s\<lparr>registeredVoters := (registeredVoters s)(v := True),
               events := events s @ [VoterRegistered v]\<rparr>
        else s)"

definition registerMultipleVoters :: "address \<Rightarrow> address list \<Rightarrow> storage \<Rightarrow> error + storage" where
  "registerMultipleVoters sender voters s = onlyOwner sender s (Inr (registerEach voters s))"

subsection \<open>Voter functions\<close>

definition registerSelf :: "address \<Rightarrow> storage \<Rightarrow> error + storage" where
  "registerSelf sender s =
     (if \<not> \<not> registeredVoters s sender then Inl (Revert ''Already registered'')
      else Inr (s\<lparr>registeredVoters := (registeredVoters s)(sender := True),
                 events := events s @ [VoterRegistered sender]\<rparr>))"

definition vote :: "address \<Rightarrow> uint256 \<Rightarrow> uint256 \<Rightarrow> uint256 \<Rightarrow> storage \<Rightarrow> error + storage" where
  "vote sender now sid cid s =
     sessionExists sid s
       (if \<not> registeredVoters s sender then Inl (Revert ''Not registered to vote'')
        else if \<not> isSessionActive now s sid then Inl (Revert ''Session not active'')
        else
          let session = votingSessions s sid in
          if \<not> \<not> hasVoted session sender then Inl (Revert ''Already voted in this session'')
          else if \<not> (cid > 0 \<and> cid \<le> candidateCount session) then Inl (Revert ''Invalid candidate'')
          else if \<not> isActive_c (candidates session cid) then Inl (Revert ''Candidate not active'')
          else if \<not> voteCount (candidates session cid) < MAX_UINT256 then Inl Panic
          else if \<not> totalVotes session < MAX_UINT256 then Inl Panic
          else
            let session' = session
                  \<lparr>hasVoted := (hasVoted session)(sender := True),
                   voterChoice := (voterChoice session)(sender := cid),
                   candidates := (candidates session)
                     (cid := (candidates session cid)
                        \<lparr>voteCount := voteCount (candidates session cid) + 1\<rparr>),
                   totalVotes := totalVotes session + 1\<rparr>
            in Inr (s\<lparr>votingSessions := (votingSessions s)(sid := session'),
                     events := events s @ [VoteCast sid sender cid]\<rparr>))"

subsection \<open>View functions\<close>

text \<open>The scan of \<^verbatim>\<open>getSessionWinner\<close>. The accumulator is
  \<open>(maxVotes, winnerId, tieCount)\<close>; the loop counter is a checked \<^verbatim>\<open>uint256\<close>, so its
  increment after the last round reverts when \<open>candidateCount\<close> is the largest value.\<close>

definition winnerStep :: "(uint256 \<Rightarrow> Candidate) \<Rightarrow> uint256 \<Rightarrow> uint256 \<times> uint256 \<times> uint256
    \<Rightarrow> uint256 \<times> uint256 \<times> uint256" where
  "winnerStep cs i acc =
     (case acc of (maxVotes, winnerId, tieCount) \<Rightarrow>
        if isActive_c (cs i) then
          if voteCount (cs i) > maxVotes then (voteCount (cs i), i, 1)
          else if voteCount (cs i) = maxVotes \<and> maxVotes > 0 then (maxVotes, winnerId, tieCount + 1)
          else (maxVotes, winnerId, tieCount)
        else (maxVotes, winnerId, tieCount))"

function winnerLoop :: "(uint256 \<Rightarrow> Candidate) \<Rightarrow> uint256 \<Rightarrow> uint256
    \<Rightarrow> uint256 \<times> uint256 \<times> uint256 \<Rightarrow> error + (uint256 \<times> uint256 \<times> uint256)" where
  "winnerLoop cs n i acc =
     (if i \<le> n then
        (if i < MAX_UINT256 then winnerLoop cs n (i + 1) (winnerStep cs i acc) else Inl Panic)
      else Inr acc)"
  by pat_completeness auto
termination
  by (relation "measure (\<lambda>(cs, n, i, acc). Suc n - i)") auto

definition getSessionWinner :: "storage \<Rightarrow> uint256 \<Rightarrow> error + (string \<times> uint256 \<times> bool)" where
  "getSessionWinner s sid =
     sessionExists sid s
       (let session = votingSessions s sid in
        if totalVotes session = 0 then Inr (''No votes cast'', 0, False)
        else
          case winnerLoop (candidates session) (candidateCount session) 1 (0, 0, 0) of
            Inl e \<Rightarrow> Inl e
          | Inr (maxVotes, winnerId, tieCount) \<Rightarrow>
              if winnerId > 0 then Inr (name_c (candidates session winnerId), maxVotes, tieCount > 1)
              else Inr (''No winner'', 0, False))"

definition hasVotedInSession :: "storage \<Rightarrow> address \<Rightarrow> uint256 \<Rightarrow> error + bool" where
  "hasVotedInSession s voter sid = sessionExists sid s (Inr (hasVoted (votingSessions s sid) voter))"

definition getVoterChoice :: "storage \<Rightarrow> address \<Rightarrow> uint256 \<Rightarrow> error + uint256" where
  "getVoterChoice s voter sid =
     sessionExists sid s
       (if \<not> hasVoted (votingSessions s sid) voter
        then Inl (Revert ''Voter has not voted in this session'')
        else Inr (voterChoice (votingSessions s sid) voter))"

definition isRegisteredVoter :: "storage \<Rightarrow> address \<Rightarrow> bool" where
  "isRegisteredVoter s voter = registeredVoters s voter"

subsection \<open>Transactions\<close>

text \<open>A transaction is a caller, a block timestamp and a call of one mutating function.
  A call that reverts commits nothing: storage and the event log stay as they were.\<close>

datatype call =
    CreateSession string uint256 uint256 "string list"
  | AddCandidateToSession uint256 string
  | UpdateCandidate uint256 uint256 string
  | RemoveCandidateFromSession uint256 uint256
  | StartSession uint256
  | EndSession uint256
  | RegisterVoter address
  | RegisterMultipleVoters "address list"
  | RegisterSelf
  | Vote uint256 uint256

fun dispatch :: "address \<Rightarrow> uint256 \<Rightarrow> call \<Rightarrow> storage \<Rightarrow> error + storage" where
  "dispatch sender now (CreateSession sname start end names) s =
     map_sum id snd (createSession sender now sname start end names s)"
| "dispatch sender now (AddCandidateToSession sid cname) s = addCandidateToSession sender now sid cname s"
| "dispatch sender now (UpdateCandidate sid cid newName) s = updateCandidate sender now sid cid newName s"
| "dispatch sender now (RemoveCandidateFromSession sid cid) s = removeCandidateFromSession sender now sid cid s"
| "dispatch sender now (StartSession sid) s = startSession sender now sid s"
| "dispatch sender now (EndSession sid) s = endSession sender sid s"
| "dispatch sender now (RegisterVoter voter) s = registerVoter sender voter s"
| "dispatch sender now (RegisterMultipleVoters voters) s = registerMultipleVoters sender voters s"
| "dispatch sender now RegisterSelf s = registerSelf sender s"
| "dispatch sender now (Vote sid cid) s = vote sender now sid cid s"

type_synonym tx = "address \<times> uint256 \<times> call"

definition transact :: "tx \<Rightarrow> storage \<Rightarrow> storage" where
  "transact t s =
     (case t of (sender, now, c) \<Rightarrow>
        (case dispatch sender now c s of Inl e \<Rightarrow> s | Inr s' \<Rightarrow> s'))"

fun run :: "tx list \<Rightarrow> storage \<Rightarrow> storage" where
  "run [] s = s"
| "run (t # ts) s = run ts (transact t s)"

subsection \<open>Error kinds\<close>

text \<open>Modelled from the spec: the contract reverts with a message only; the three error
  kinds are the taxonomy of the specification's error-handling section (caller lacks
  privilege or registration; malformed input such as empty strings, out-of-range ids and
  bad time windows; operation invalid for the current lifecycle state). A vote against a
  candidate that is not active is a validation error there. An arithmetic panic has no
  kind.\<close>

datatype errorKind = AuthError | ValidationError | StateError

definition errorKindOf :: "error \<Rightarrow> errorKind option" where
  "errorKindOf e =
     (case e of
        Panic \<Rightarrow> None
      | Revert m \<Rightarrow>
          if m \<in> set [''Only owner can perform this action'', ''Not registered to vote'']
            then Some AuthError
          else if m \<in> set [''Session does not exist'', ''Session not found'',
                  ''Invalid time range'', ''At least one candidate required'',
                  ''Session name cannot be empty'', ''Candidate name cannot be empty'',
                  ''Invalid candidate ID'', ''Invalid candidate'', ''Candidate not active'',
                  ''Invalid voter address'']
            then Some ValidationError
          else if m \<in> set [''Cannot modify active session'', ''Candidate already inactive'',
                  ''Session already active'', ''Session start time not reached'',
                  ''Session end time passed'', ''Session not active'',
                  ''Voter already registered'', ''Already registered'',
                  ''Already voted in this session'', ''Voter has not voted in this session'']
            then Some StateError
          else None)"

section \<open>Notions used to state the properties\<close>

text \<open>The condition checked by the \<^verbatim>\<open>sessionExists\<close> modifier.\<close>

definition existingSession :: "storage \<Rightarrow> uint256 \<Rightarrow> bool" where
  "existingSession s sid = (sid > 0 \<and> sid \<le> sessionCount s \<and> isCreated (votingSessions s sid))"

text \<open>The ids of the active candidates among the first \<open>n\<close>.\<close>

definition activeIds :: "(uint256 \<Rightarrow> Candidate) \<Rightarrow> uint256 \<Rightarrow> uint256 set" where
  "activeIds cs n = {i. 1 \<le> i \<and> i \<le> n \<and> isActive_c (cs i)}"

text \<open>What the scan of \<^verbatim>\<open>getSessionWinner\<close> knows after the first \<open>n\<close> candidates.\<close>

definition scanInv :: "(uint256 \<Rightarrow> Candidate) \<Rightarrow> uint256 \<Rightarrow> uint256 \<times> uint256 \<times> uint256 \<Rightarrow> bool" where
  "scanInv cs n acc =
     (case acc of (m, w, t) \<Rightarrow>
        (\<forall>i \<in> activeIds cs n. voteCount (cs i) \<le> m)
      \<and> (w = 0 \<longrightarrow> m = 0 \<and> t = 0)
      \<and> (w \<noteq> 0 \<longrightarrow> w \<in> activeIds cs n \<and> voteCount (cs w) = m \<and> 0 < m
            \<and> (\<forall>i \<in> activeIds cs n. voteCount (cs i) = m \<longrightarrow> w \<le> i)
            \<and> t = card {i \<in> activeIds cs n. voteCount (cs i) = m}))"

text \<open>The tally of one session agrees with its candidates and with its voters.\<close>

definition sessionTally :: "VotingSession \<Rightarrow> bool" where
  "sessionTally S =
     (totalVotes S = (\<Sum>i = 1..candidateCount S. voteCount (candidates S i))
      \<and> totalVotes S = card {v. hasVoted S v})"

definition tallyInv :: "storage \<Rightarrow> bool" where
  "tallyInv s =
     (\<forall>sid. sessionTally (votingSessions s sid)
          \<and> (sid = 0 \<or> sid > sessionCount s \<longrightarrow> votingSessions s sid = zeroSession))"

text \<open>Whoever is recorded as having voted in a session is registered, and the session exists.\<close>

definition votedInv :: "storage \<Rightarrow> bool" where
  "votedInv s =
     (\<forall>sid v. hasVoted (votingSessions s sid) v \<longrightarrow> existingSession s sid \<and> registeredVoters s v)"

text \<open>A candidate that has been deactivated, with the votes it had then.\<close>

definition retired :: "uint256 \<Rightarrow> uint256 \<Rightarrow> uint256 \<Rightarrow> storage \<Rightarrow> bool" where
  "retired sid cid n s =
     (existingSession s sid \<and> 0 < cid \<and> cid \<le> candidateCount (votingSessions s sid)
      \<and> \<not> isActive_c (candidates (votingSessions s sid) cid)
      \<and> voteCount (candidates (votingSessions s sid) cid) = n)"

subsection \<open>The complete effect of each call\<close>

text \<open>
  What each mutating operation does when it does all of it, in the words of the
  specification's component design: the writes and the events it lists for the
  operation, with no check of any precondition. Session creation allocates the next id,
  stores the metadata and adds every supplied candidate in input order; a vote marks the
  caller, records the choice and increments both counters; bulk registration adds each
  entry that is neither registered nor null. These definitions are the reference against
  which the functions of the contract are compared.
\<close>

definition addCandidateEffect :: "uint256 \<Rightarrow> string \<Rightarrow> storage \<Rightarrow> storage" where
  "addCandidateEffect sid cname s =
     (let session = votingSessions s sid; n = candidateCount session + 1
      in s\<lparr>votingSessions := (votingSessions s)
               (sid := session
                  \<lparr>candidateCount := n,
                   candidates := (candidates session)
                     (n := \<lparr>id_c = n, name_c = cname, voteCount = 0, isActive_c = True\<rparr>)\<rparr>),
             events := events s @ [CandidateAdded sid n cname]\<rparr>)"

definition createSessionEffect ::
  "string \<Rightarrow> uint256 \<Rightarrow> uint256 \<Rightarrow> string list \<Rightarrow> storage \<Rightarrow> storage" where
  "createSessionEffect sname start stop names s =
     (let n = sessionCount s + 1;
          s1 = s\<lparr>sessionCount := n,
                 votingSessions := (votingSessions s)
                   (n := (votingSessions s n)
                      \<lparr>sessionId := n, sessionName := sname, startTime := start,
                       endTime := stop, isActive := False, isCreated := True,
                       candidateCount := 0, totalVotes := 0\<rparr>)\<rparr>;
          s2 = fold (addCandidateEffect n) names s1
      in s2\<lparr>events := events s2 @ [SessionCreated n sname start stop]\<rparr>)"

definition registerEffect :: "address \<Rightarrow> storage \<Rightarrow> storage" where
  "registerEffect voter s =
     s\<lparr>registeredVoters := (registeredVoters s)(voter := True),
       events := events s @ [VoterRegistered voter]\<rparr>"

definition voteEffect :: "address \<Rightarrow> uint256 \<Rightarrow> uint256 \<Rightarrow> storage \<Rightarrow> storage" where
  "voteEffect voter sid cid s =
     (let session = votingSessions s sid
      in s\<lparr>votingSessions := (votingSessions s)
               (sid := session
                  \<lparr>hasVoted := (hasVoted session)(voter := True),
                   voterChoice := (voterChoice session)(voter := cid),
                   candidates := (candidates session)
                     (cid := (candidates session cid)
                        \<lparr>voteCount := voteCount (candidates session cid) + 1\<rparr>),
                   totalVotes := totalVotes session + 1\<rparr>),
             events := events s @ [VoteCast sid voter cid]\<rparr>)"

fun fullEffect :: "address \<Rightarrow> call \<Rightarrow> storage \<Rightarrow> storage" where
  "fullEffect sender (CreateSession sname start stop names) s =
     createSessionEffect sname start stop names s"
| "fullEffect sender (AddCandidateToSession sid cname) s = addCandidateEffect sid cname s"
| "fullEffect sender (UpdateCandidate sid cid newName) s =
     s\<lparr>votingSessions := (votingSessions s)
          (sid := (votingSessions s sid)
             \<lparr>candidates := (candidates (votingSessions s sid))
                (cid := (candidates (votingSessions s sid) cid)\<lparr>name_c := newName\<rparr>)\<rparr>),
       events := events s @ [CandidateUpdated sid cid newName]\<rparr>"
| "fullEffect sender (RemoveCandidateFromSession sid cid) s =
     s\<lparr>votingSessions := (votingSessions s)
          (sid := (votingSessions s sid)
             \<lparr>candidates := (candidates (votingSessions s sid))
                (cid := (candidates (votingSessions s sid) cid)\<lparr>isActive_c := False\<rparr>)\<rparr>),
       events := events s @ [CandidateRemoved sid cid]\<rparr>"
| "fullEffect sender (StartSession sid) s =
     s\<lparr>votingSessions := (votingSessions s)(sid := (votingSessions s sid)\<lparr>isActive := True\<rparr>),
       events := events s @ [SessionStarted sid]\<rparr>"
| "fullEffect sender (EndSession sid) s =
     s\<lparr>votingSessions := (votingSessions s)(sid := (votingSessions s sid)\<lparr>isActive := False\<rparr>),
       events := events s @ [SessionEnded sid]\<rparr>"
| "fullEffect sender (RegisterVoter voter) s = registerEffect voter s"
| "fullEffect sender (RegisterMultipleVoters voters) s =
     fold (\<lambda>v s'. if \<not> registeredVoters s' v \<and> v \<noteq> 0 then registerEffect v s' else s') voters s"
| "fullEffect sender RegisterSelf s = registerEffect sender s"
| "fullEffect sender (Vote sid cid) s = voteEffect sender sid cid s"

subsection \<open>A run of the contract\<close>

text \<open>The deployer 1 creates a session with three candidates and the window \<open>[100, 200]\<close>,
  voters 2 and 3 register, the session is started, 2 votes for Bob and 3 for Carol; the
  session is then ended and both candidates with votes are removed.\<close>

definition deployer :: address where "deployer = 1"
definition voterB :: address where "voterB = 2"
definition voterC :: address where "voterC = 3"
definition stranger :: address where "stranger = 4"

definition openedTxs :: "tx list" where
  "openedTxs =
     [(deployer, 50, CreateSession ''Election'' 100 200 [''Alice'', ''Bob'', ''Carol'']),
      (voterB, 60, RegisterSelf),
      (deployer, 70, RegisterVoter voterC),
      (deployer, 100, StartSession 1)]"

definition votedTxs :: "tx list" where
  "votedTxs = openedTxs @ [(voterB, 110, Vote 1 2), (voterC, 120, Vote 1 3)]"

definition closedTxs :: "tx list" where
  "closedTxs = votedTxs @ [(deployer, 130, EndSession 1)]"

definition removedTxs :: "tx list" where
  "removedTxs = closedTxs @ [(deployer, 130, RemoveCandidateFromSession 1 2),
                             (deployer, 130, RemoveCandidateFromSession 1 3)]"

definition opened :: storage where "opened = run openedTxs (constructor deployer)"
definition voted :: storage where "voted = run votedTxs (constructor deployer)"
definition closed :: storage where "closed = run closedTxs (constructor deployer)"
definition removed :: storage where "removed = run removedTxs (constructor deployer)"

section \<open>Basic facts\<close>
lemma sessionExists_eq:
  "sessionExists sid s body =
     (if existingSession s sid then body
      else if sid > 0 \<and> sid \<le> sessionCount s then Inl (Revert ''Session not found'')
      else Inl (Revert ''Session does not exist''))"
  by (simp add: sessionExists_def existingSession_def)

lemma isSessionActive_exists: "isSessionActive now s sid \<Longrightarrow> existingSession s sid"
  by (simp add: isSessionActive_def existingSession_def split: if_splits)

lemma kind_simps:
  "errorKindOf (Revert ''Session not active'') = Some StateError"
  "errorKindOf (Revert ''Cannot modify active session'') = Some StateError"
  "errorKindOf (Revert ''Already voted in this session'') = Some StateError"
  "errorKindOf (Revert ''Not registered to vote'') = Some AuthError"
  "errorKindOf (Revert ''Only owner can perform this action'') = Some AuthError"
  "errorKindOf (Revert ''Candidate not active'') = Some ValidationError"
  "errorKindOf (Revert ''Invalid time range'') = Some ValidationError"
  "errorKindOf (Revert ''At least one candidate required'') = Some ValidationError"
  "errorKindOf (Revert ''Session name cannot be empty'') = Some ValidationError"
  by (simp_all add: errorKindOf_def)

lemma run_append: "run (ts @ us) s = run us (run ts s)"
  by (induction ts arbitrary: s) simp_all

lemmas contract_defs =
  constructor_def transact_def createSession_def addCandidateToSession_def onlyOwner_def
  sessionExists_def sessionNotActive_def isSessionActive_def registerSelf_def registerVoter_def
  registerMultipleVoters_def startSession_def endSession_def vote_def updateCandidate_def
  removeCandidateFromSession_def getSessionWinner_def winnerStep_def MAX_UINT256_def
  zeroSession_def zeroCandidate_def existingSession_def Let_def

lemmas scenario_defs =
  deployer_def voterB_def voterC_def stranger_def openedTxs_def votedTxs_def closedTxs_def
  removedTxs_def opened_def voted_def closed_def removed_def

subsection \<open>What a committed call did\<close>
lemma addCandidateToSession_Inr:
  assumes "addCandidateToSession sender now sid n s = Inr s'"
  shows "s' = s\<lparr>votingSessions := (votingSessions s)
                  (sid := (votingSessions s sid)
                     \<lparr>candidateCount := candidateCount (votingSessions s sid) + 1,
                      candidates := (candidates (votingSessions s sid))
                        (candidateCount (votingSessions s sid) + 1 :=
                           \<lparr>id_c = candidateCount (votingSessions s sid) + 1, name_c = n,
                            voteCount = 0, isActive_c = True\<rparr>)\<rparr>),
                events := events s @ [CandidateAdded sid (candidateCount (votingSessions s sid) + 1) n]\<rparr>"
  using assms
  by (simp add: addCandidateToSession_def onlyOwner_def sessionExists_def sessionNotActive_def
      Let_def split: if_splits)

lemma addCandidateToSession_exists:
  "addCandidateToSession sender now sid n s = Inr s' \<Longrightarrow> existingSession s sid"
  by (simp add: addCandidateToSession_def onlyOwner_def sessionExists_eq split: if_splits)

lemma addCandidates_frame:
  assumes "addCandidates sender now names s = Inr s'"
  shows "sessionCount s' = sessionCount s \<and> owner s' = owner s
       \<and> registeredVoters s' = registeredVoters s
       \<and> (\<forall>k. k \<noteq> sessionCount s \<longrightarrow> votingSessions s' k = votingSessions s k)"
  using assms
proof (induction names arbitrary: s)
  case Nil
  then show ?case by simp
next
  case (Cons n ns)
  from Cons.prems obtain s1 where
    a: "addCandidateToSession sender now (sessionCount s) n s = Inr s1"
    and b: "addCandidates sender now ns s1 = Inr s'"
    by (auto split: sum.splits)
  note e = addCandidateToSession_Inr [OF a]
  have c: "sessionCount s1 = sessionCount s" by (subst e) simp
  from Cons.IH [OF b] show ?case unfolding c by (subst (asm) (1 2 3) e) (simp add: e)
qed

lemma addCandidates_session:
  assumes "addCandidates sender now names s = Inr s'"
  shows "votingSessions s' (sessionCount s) =
           (votingSessions s (sessionCount s))
             \<lparr>candidateCount := candidateCount (votingSessions s (sessionCount s)) + length names,
              candidates := candidates (votingSessions s' (sessionCount s))\<rparr>
       \<and> (\<forall>i < length names.
            candidates (votingSessions s' (sessionCount s))
                (candidateCount (votingSessions s (sessionCount s)) + i + 1) =
              \<lparr>id_c = candidateCount (votingSessions s (sessionCount s)) + i + 1,
               name_c = names ! i, voteCount = 0, isActive_c = True\<rparr>)
       \<and> (\<forall>j \<le> candidateCount (votingSessions s (sessionCount s)).
            candidates (votingSessions s' (sessionCount s)) j
              = candidates (votingSessions s (sessionCount s)) j)"
  using assms
proof (induction names arbitrary: s)
  case Nil
  then show ?case by simp
next
  case (Cons n ns)
  from Cons.prems obtain s1 where
    a: "addCandidateToSession sender now (sessionCount s) n s = Inr s1"
    and b: "addCandidates sender now ns s1 = Inr s'"
    by (auto split: sum.splits)
  note e = addCandidateToSession_Inr [OF a]
  have c: "sessionCount s1 = sessionCount s" by (subst e) simp
  define S where "S = votingSessions s (sessionCount s)"
  have S1: "votingSessions s1 (sessionCount s) =
      S\<lparr>candidateCount := candidateCount S + 1,
        candidates := (candidates S)(candidateCount S + 1 :=
           \<lparr>id_c = candidateCount S + 1, name_c = n, voteCount = 0, isActive_c = True\<rparr>)\<rparr>"
    by (subst e) (simp add: S_def)
  note ih = Cons.IH [OF b, unfolded c S1, folded S_def]
  show ?case unfolding S_def [symmetric]
  proof (intro conjI allI impI)
    show "votingSessions s' (sessionCount s) =
      S\<lparr>candidateCount := candidateCount S + length (n # ns),
        candidates := candidates (votingSessions s' (sessionCount s))\<rparr>"
      using ih by simp
  next
    fix i assume "i < length (n # ns)"
    then show "candidates (votingSessions s' (sessionCount s)) (candidateCount S + i + 1) =
      \<lparr>id_c = candidateCount S + i + 1, name_c = (n # ns) ! i, voteCount = 0, isActive_c = True\<rparr>"
      using ih by (cases i) auto
  next
    fix j assume "j \<le> candidateCount S"
    then show "candidates (votingSessions s' (sessionCount s)) j = candidates S j"
      using ih by auto
  qed
qed

lemma createSession_Inr:
  assumes "createSession sender now sname start end names s = Inr (sid, s')"
  shows "sid = sessionCount s + 1 \<and> sessionCount s' = sessionCount s + 1
       \<and> owner s' = owner s \<and> registeredVoters s' = registeredVoters s
       \<and> (\<forall>k. k \<noteq> sid \<longrightarrow> votingSessions s' k = votingSessions s k)
       \<and> votingSessions s' sid = (votingSessions s sid)
           \<lparr>sessionId := sid, sessionName := sname, startTime := start, endTime := end,
            isActive := False, isCreated := True, candidateCount := length names, totalVotes := 0,
            candidates := candidates (votingSessions s' sid)\<rparr>
       \<and> (\<forall>i < length names.
                candidates (votingSessions s' sid) (i + 1) =
                  \<lparr>id_c = i + 1, name_c = names ! i, voteCount = 0, isActive_c = True\<rparr>)"
proof -
  define n where "n = sessionCount s + 1"
  define s1 where "s1 = s\<lparr>sessionCount := n, votingSessions := (votingSessions s)
      (n := (votingSessions s n)
         \<lparr>sessionId := n, sessionName := sname, startTime := start, endTime := end,
          isActive := False, isCreated := True, candidateCount := 0, totalVotes := 0\<rparr>)\<rparr>"
  from assms obtain s2 where
    loop: "addCandidates sender now names s1 = Inr s2"
    and res: "sid = sessionCount s2"
      "s' = s2\<lparr>events := events s2 @ [SessionCreated (sessionCount s2) sname start end]\<rparr>"
    by (auto simp add: createSession_def onlyOwner_def Let_def s1_def n_def
        split: if_splits sum.splits)
  have c1: "sessionCount s1 = n" by (simp add: s1_def)
  have v1: "votingSessions s1 n = (votingSessions s n)
         \<lparr>sessionId := n, sessionName := sname, startTime := start, endTime := end,
          isActive := False, isCreated := True, candidateCount := 0, totalVotes := 0\<rparr>"
    by (simp add: s1_def)
  note fr = addCandidates_frame [OF loop, unfolded c1]
  note se = addCandidates_session [OF loop, unfolded c1 v1]
  have sidn: "sid = n" using res fr by simp
  have vs: "votingSessions s' = votingSessions s2" using res by simp
  have eq: "votingSessions s2 n = (votingSessions s n)
         \<lparr>sessionId := n, sessionName := sname, startTime := start, endTime := end,
          isActive := False, isCreated := True, candidateCount := length names, totalVotes := 0,
          candidates := candidates (votingSessions s2 n)\<rparr>"
  proof -
    note conjunct1 [OF se]
    also have "(votingSessions s n)
         \<lparr>sessionId := n, sessionName := sname, startTime := start, endTime := end,
          isActive := False, isCreated := True, candidateCount := 0, totalVotes := 0\<rparr>
         \<lparr>candidateCount := candidateCount ((votingSessions s n)
         \<lparr>sessionId := n, sessionName := sname, startTime := start, endTime := end,
          isActive := False, isCreated := True, candidateCount := 0, totalVotes := 0\<rparr>) + length names,
          candidates := candidates (votingSessions s2 n)\<rparr> = (votingSessions s n)
         \<lparr>sessionId := n, sessionName := sname, startTime := start, endTime := end,
          isActive := False, isCreated := True, candidateCount := length names, totalVotes := 0,
          candidates := candidates (votingSessions s2 n)\<rparr>"
      by simp
    finally show ?thesis .
  qed
  show ?thesis unfolding sidn vs
  proof (intro conjI)
    show "n = sessionCount s + 1" by (simp add: n_def)
    show "sessionCount s' = sessionCount s + 1" using res fr by (simp add: n_def)
    show "owner s' = owner s" using res fr by (simp add: s1_def)
    show "registeredVoters s' = registeredVoters s" using res fr by (simp add: s1_def)
    show "\<forall>k. k \<noteq> n \<longrightarrow> votingSessions s2 k = votingSessions s k" using fr by (simp add: s1_def)
    show "votingSessions s2 n = (votingSessions s n)
         \<lparr>sessionId := n, sessionName := sname, startTime := start, endTime := end,
          isActive := False, isCreated := True, candidateCount := length names, totalVotes := 0,
          candidates := candidates (votingSessions s2 n)\<rparr>" by (rule eq)
    show "\<forall>i < length names. candidates (votingSessions s2 n) (i + 1) =
                  \<lparr>id_c = i + 1, name_c = names ! i, voteCount = 0, isActive_c = True\<rparr>"
      using se by simp
  qed
qed

lemma updateCandidate_Inr:
  assumes "updateCandidate sender now sid cid newName s = Inr s'"
  shows "existingSession s sid \<and> 0 < cid \<and> cid \<le> candidateCount (votingSessions s sid)
       \<and> isActive_c (candidates (votingSessions s sid) cid)
       \<and> s' = s\<lparr>votingSessions := (votingSessions s)(sid := (votingSessions s sid)
                  \<lparr>candidates := (candidates (votingSessions s sid))
                     (cid := (candidates (votingSessions s sid) cid)\<lparr>name_c := newName\<rparr>)\<rparr>),
                events := events s @ [CandidateUpdated sid cid newName]\<rparr>"
  using assms
  by (simp add: updateCandidate_def onlyOwner_def sessionExists_eq sessionNotActive_def Let_def
      split: if_splits)

lemma removeCandidateFromSession_Inr:
  assumes "removeCandidateFromSession sender now sid cid s = Inr s'"
  shows "existingSession s sid \<and> \<not> isSessionActive now s sid
       \<and> 0 < cid \<and> cid \<le> candidateCount (votingSessions s sid)
       \<and> isActive_c (candidates (votingSessions s sid) cid)
       \<and> s' = s\<lparr>votingSessions := (votingSessions s)(sid := (votingSessions s sid)
                  \<lparr>candidates := (candidates (votingSessions s sid))
                     (cid := (candidates (votingSessions s sid) cid)\<lparr>isActive_c := False\<rparr>)\<rparr>),
                events := events s @ [CandidateRemoved sid cid]\<rparr>"
  using assms
  by (simp add: removeCandidateFromSession_def onlyOwner_def sessionExists_eq sessionNotActive_def
      Let_def split: if_splits)

lemma startSession_Inr:
  assumes "startSession sender now sid s = Inr s'"
  shows "existingSession s sid
       \<and> s' = s\<lparr>votingSessions := (votingSessions s)
                  (sid := (votingSessions s sid)\<lparr>isActive := True\<rparr>),
                events := events s @ [SessionStarted sid]\<rparr>"
  using assms
  by (simp add: startSession_def onlyOwner_def sessionExists_eq Let_def split: if_splits)

lemma endSession_Inr:
  assumes "endSession sender sid s = Inr s'"
  shows "existingSession s sid
       \<and> s' = s\<lparr>votingSessions := (votingSessions s)
                  (sid := (votingSessions s sid)\<lparr>isActive := False\<rparr>),
                events := events s @ [SessionEnded sid]\<rparr>"
  using assms
  by (simp add: endSession_def onlyOwner_def sessionExists_eq Let_def split: if_splits)

lemma vote_Inr:
  assumes "vote sender now sid cid s = Inr s'"
  shows "existingSession s sid \<and> registeredVoters s sender \<and> isSessionActive now s sid
       \<and> \<not> hasVoted (votingSessions s sid) sender
       \<and> 0 < cid \<and> cid \<le> candidateCount (votingSessions s sid)
       \<and> isActive_c (candidates (votingSessions s sid) cid)
       \<and> s' = s\<lparr>votingSessions := (votingSessions s)(sid := (votingSessions s sid)
                  \<lparr>hasVoted := (hasVoted (votingSessions s sid))(sender := True),
                   voterChoice := (voterChoice (votingSessions s sid))(sender := cid),
                   candidates := (candidates (votingSessions s sid))
                     (cid := (candidates (votingSessions s sid) cid)
                        \<lparr>voteCount := voteCount (candidates (votingSessions s sid) cid) + 1\<rparr>),
                   totalVotes := totalVotes (votingSessions s sid) + 1\<rparr>),
                events := events s @ [VoteCast sid sender cid]\<rparr>"
  using assms
  by (simp add: vote_def sessionExists_eq Let_def split: if_splits)

lemma registerEach_frame:
  "votingSessions (registerEach vs s) = votingSessions s
   \<and> sessionCount (registerEach vs s) = sessionCount s
   \<and> owner (registerEach vs s) = owner s
   \<and> (registeredVoters s v \<longrightarrow> registeredVoters (registerEach vs s) v)"
  by (induction vs arbitrary: s) simp_all

section \<open>The tally of a session\<close>
lemma sessionTally_zero: "sessionTally zeroSession"
  by (simp add: sessionTally_def zeroSession_def)

lemma tallyInv_constructor: "tallyInv (constructor a)"
  by (simp add: tallyInv_def constructor_def sessionTally_zero)

lemma sum_votes_upd_in:
  fixes k n :: nat
  assumes "1 \<le> k" "k \<le> n"
  shows "(\<Sum>i = 1..n. voteCount (((cs(k := c)) i))) + voteCount (cs k)
          = (\<Sum>i = 1..n. voteCount (cs i)) + voteCount c"
proof -
  have k: "k \<in> {1..n}" using assms by simp
  have "(\<Sum>i = 1..n. voteCount ((cs(k := c)) i))
      = voteCount c + (\<Sum>i \<in> {1..n} - {k}. voteCount ((cs(k := c)) i))"
    using k sum.remove [of "{1..n}" k "\<lambda>i. voteCount ((cs(k := c)) i)"] by simp
  moreover have "(\<Sum>i \<in> {1..n} - {k}. voteCount ((cs(k := c)) i))
      = (\<Sum>i \<in> {1..n} - {k}. voteCount (cs i))"
    by (rule sum.cong) auto
  moreover have "(\<Sum>i = 1..n. voteCount (cs i))
      = voteCount (cs k) + (\<Sum>i \<in> {1..n} - {k}. voteCount (cs i))"
    using k sum.remove [of "{1..n}" k "\<lambda>i. voteCount (cs i)"] by simp
  ultimately show ?thesis by simp
qed

lemma sum_votes_upd_same:
  fixes k n :: nat
  assumes "voteCount c = voteCount (cs k)"
  shows "(\<Sum>i = 1..n. voteCount ((cs(k := c)) i)) = (\<Sum>i = 1..n. voteCount (cs i))"
  by (rule sum.cong) (auto simp add: assms)

lemma sum_votes_upd_new:
  fixes n :: nat
  shows "(\<Sum>i = 1..Suc n. voteCount ((cs(Suc n := c)) i)) = (\<Sum>i = 1..n. voteCount (cs i)) + voteCount c"
proof -
  have "(\<Sum>i = 1..n. voteCount ((cs(Suc n := c)) i)) = (\<Sum>i = 1..n. voteCount (cs i))"
    by (rule sum.cong) auto
  then show ?thesis by simp
qed

lemma card_voted_upd:
  fixes f :: "address \<Rightarrow> bool"
  assumes "\<not> f a"
  shows "card {v. (f(a := True)) v} = Suc (card {v. f v})"
proof -
  have "{v. (f(a := True)) v} = insert a {v. f v}" by auto
  moreover have "a \<notin> {v. f v}" using assms by simp
  ultimately show ?thesis by simp
qed

lemma tallyInv_upd:
  assumes "tallyInv s" "sessionTally S" "0 < sid" "sid \<le> sessionCount s"
  shows "tallyInv (s\<lparr>votingSessions := (votingSessions s)(sid := S), events := ev\<rparr>)"
  using assms by (simp add: tallyInv_def)

lemma tallyInv_add:
  assumes "tallyInv s" "addCandidateToSession sender now sid n s = Inr s'"
  shows "tallyInv s'"
proof -
  from assms(2) have ex: "0 < sid" "sid \<le> sessionCount s"
    by (auto simp add: addCandidateToSession_def onlyOwner_def sessionExists_def split: if_splits)
  from assms(1) have "sessionTally (votingSessions s sid)" by (simp add: tallyInv_def)
  then have "sessionTally ((votingSessions s sid)
                     \<lparr>candidateCount := candidateCount (votingSessions s sid) + 1,
                      candidates := (candidates (votingSessions s sid))
                        (candidateCount (votingSessions s sid) + 1 :=
                           \<lparr>id_c = candidateCount (votingSessions s sid) + 1, name_c = n,
                            voteCount = 0, isActive_c = True\<rparr>)\<rparr>)"
    using sum_votes_upd_new [where n = "candidateCount (votingSessions s sid)"
        and cs = "candidates (votingSessions s sid)"]
    by (simp add: sessionTally_def del: fun_upd_apply)
  from tallyInv_upd [OF assms(1) this ex] show ?thesis
    by (subst addCandidateToSession_Inr [OF assms(2)])
qed

lemma tallyInv_addCandidates:
  assumes "tallyInv s" "addCandidates sender now names s = Inr s'"
  shows "tallyInv s'"
  using assms
proof (induction names arbitrary: s)
  case Nil
  then show ?case by simp
next
  case (Cons n ns)
  from Cons.prems(2) obtain s1 where
    a: "addCandidateToSession sender now (sessionCount s) n s = Inr s1"
    and b: "addCandidates sender now ns s1 = Inr s'"
    by (auto split: sum.splits)
  from Cons.IH [OF tallyInv_add [OF Cons.prems(1) a] b] show ?case .
qed

lemma tallyInv_events: "tallyInv (s\<lparr>events := ev\<rparr>) = tallyInv s"
  by (simp add: tallyInv_def)

lemma tallyInv_create:
  assumes "tallyInv s" "createSession sender now sname start end names s = Inr (sid, s')"
  shows "tallyInv s'"
proof -
  define n where "n = sessionCount s + 1"
  define s1 where "s1 = s\<lparr>sessionCount := n, votingSessions := (votingSessions s)
      (n := (votingSessions s n)
         \<lparr>sessionId := n, sessionName := sname, startTime := start, endTime := end,
          isActive := False, isCreated := True, candidateCount := 0, totalVotes := 0\<rparr>)\<rparr>"
  from assms(2) obtain s2 where
    loop: "addCandidates sender now names s1 = Inr s2"
    and res: "s' = s2\<lparr>events := events s2 @ [SessionCreated (sessionCount s2) sname start end]\<rparr>"
    by (auto simp add: createSession_def onlyOwner_def Let_def s1_def n_def
        split: if_splits sum.splits)
  from assms(1) have z: "votingSessions s n = zeroSession" by (simp add: tallyInv_def n_def)
  have "sessionTally (zeroSession
         \<lparr>sessionId := n, sessionName := sname, startTime := start, endTime := end,
          isActive := False, isCreated := True, candidateCount := 0, totalVotes := 0\<rparr>)"
    by (simp add: sessionTally_def zeroSession_def)
  with assms(1) have "tallyInv s1"
    by (simp add: tallyInv_def s1_def z n_def)
  from tallyInv_addCandidates [OF this loop] show ?thesis by (simp add: res tallyInv_events)
qed

lemma tallyInv_registerEach: "tallyInv (registerEach vs s) = tallyInv s"
  by (induction vs arbitrary: s) (simp_all add: tallyInv_def)

lemma tallyInv_vote:
  assumes "tallyInv s" "vote sender now sid cid s = Inr s'"
  shows "tallyInv s'"
proof -
  define S where "S = votingSessions s sid"
  from assms(2) have ex: "0 < sid" "sid \<le> sessionCount s"
    and nv: "\<not> hasVoted S sender" and c: "1 \<le> cid" "cid \<le> candidateCount S"
    and s': "s' = s\<lparr>votingSessions := (votingSessions s)(sid := S
                  \<lparr>hasVoted := (hasVoted S)(sender := True),
                   voterChoice := (voterChoice S)(sender := cid),
                   candidates := (candidates S)
                     (cid := (candidates S cid)\<lparr>voteCount := voteCount (candidates S cid) + 1\<rparr>),
                   totalVotes := totalVotes S + 1\<rparr>),
                     events := events s @ [VoteCast sid sender cid]\<rparr>"
    by (auto simp add: vote_def sessionExists_def Let_def S_def split: if_splits)
  from assms(1) have t: "sessionTally S" by (simp add: tallyInv_def S_def)
  have "sessionTally (S
                  \<lparr>hasVoted := (hasVoted S)(sender := True),
                   voterChoice := (voterChoice S)(sender := cid),
                   candidates := (candidates S)
                     (cid := (candidates S cid)\<lparr>voteCount := voteCount (candidates S cid) + 1\<rparr>),
                   totalVotes := totalVotes S + 1\<rparr>)"
    using t nv card_voted_upd [where f = "hasVoted S" and a = sender]
      sum_votes_upd_in [OF c, of "candidates S"
        "(candidates S cid)\<lparr>voteCount := voteCount (candidates S cid) + 1\<rparr>"]
    by (simp add: sessionTally_def del: fun_upd_apply)
  from tallyInv_upd [OF assms(1) this ex] show ?thesis by (simp add: s')
qed

lemma sessionTally_flag: "sessionTally (S\<lparr>isActive := b\<rparr>) = sessionTally S"
  by (simp add: sessionTally_def)

lemma tallyInv_dispatch:
  assumes "tallyInv s" "dispatch sender now c s = Inr s'"
  shows "tallyInv s'"
proof (cases c)
  case (CreateSession sname t0 t1 names)
  with assms(2) obtain sid where "createSession sender now sname t0 t1 names s = Inr (sid, s')"
    by (cases "createSession sender now sname t0 t1 names s") auto
  from tallyInv_create [OF assms(1) this] show ?thesis .
next
  case (AddCandidateToSession sid cname)
  with assms tallyInv_add show ?thesis by simp
next
  case (UpdateCandidate sid cid newName)
  define S where "S = votingSessions s sid"
  from assms(2) UpdateCandidate have ex: "0 < sid" "sid \<le> sessionCount s"
    and s': "s' = s\<lparr>votingSessions := (votingSessions s)(sid := S
                  \<lparr>candidates := (candidates S)(cid := (candidates S cid)\<lparr>name_c := newName\<rparr>)\<rparr>),
                     events := events s @ [CandidateUpdated sid cid newName]\<rparr>"
    by (auto simp add: updateCandidate_def onlyOwner_def sessionExists_def sessionNotActive_def
        Let_def S_def split: if_splits)
  from assms(1) have "sessionTally S" by (simp add: tallyInv_def S_def)
  then have "sessionTally (S\<lparr>candidates := (candidates S)(cid := (candidates S cid)\<lparr>name_c := newName\<rparr>)\<rparr>)"
    using sum_votes_upd_same [where cs = "candidates S" and k = cid
        and c = "(candidates S cid)\<lparr>name_c := newName\<rparr>" and n = "candidateCount S"]
    by (simp add: sessionTally_def del: fun_upd_apply)
  from tallyInv_upd [OF assms(1) this ex] show ?thesis by (simp add: s')
next
  case (RemoveCandidateFromSession sid cid)
  define S where "S = votingSessions s sid"
  from assms(2) RemoveCandidateFromSession have ex: "0 < sid" "sid \<le> sessionCount s"
    and s': "s' = s\<lparr>votingSessions := (votingSessions s)(sid := S
                  \<lparr>candidates := (candidates S)(cid := (candidates S cid)\<lparr>isActive_c := False\<rparr>)\<rparr>),
                     events := events s @ [CandidateRemoved sid cid]\<rparr>"
    by (auto simp add: removeCandidateFromSession_def onlyOwner_def sessionExists_def
        sessionNotActive_def Let_def S_def split: if_splits)
  from assms(1) have "sessionTally S" by (simp add: tallyInv_def S_def)
  then have "sessionTally (S\<lparr>candidates := (candidates S)(cid := (candidates S cid)\<lparr>isActive_c := False\<rparr>)\<rparr>)"
    using sum_votes_upd_same [where cs = "candidates S" and k = cid
        and c = "(candidates S cid)\<lparr>isActive_c := False\<rparr>" and n = "candidateCount S"]
    by (simp add: sessionTally_def del: fun_upd_apply)
  from tallyInv_upd [OF assms(1) this ex] show ?thesis by (simp add: s')
next
  case (StartSession sid)
  from assms(2) StartSession have ex: "0 < sid" "sid \<le> sessionCount s"
    and s': "s' = s\<lparr>votingSessions := (votingSessions s)(sid := (votingSessions s sid)\<lparr>isActive := True\<rparr>),
                     events := events s @ [SessionStarted sid]\<rparr>"
    by (auto simp add: startSession_def onlyOwner_def sessionExists_def Let_def split: if_splits)
  from assms(1) have "sessionTally ((votingSessions s sid)\<lparr>isActive := True\<rparr>)"
    by (simp add: tallyInv_def sessionTally_flag)
  from tallyInv_upd [OF assms(1) this ex] show ?thesis by (simp add: s')
next
  case (EndSession sid)
  from assms(2) EndSession have ex: "0 < sid" "sid \<le> sessionCount s"
    and s': "s' = s\<lparr>votingSessions := (votingSessions s)(sid := (votingSessions s sid)\<lparr>isActive := False\<rparr>),
                     events := events s @ [SessionEnded sid]\<rparr>"
    by (auto simp add: endSession_def onlyOwner_def sessionExists_def Let_def split: if_splits)
  from assms(1) have "sessionTally ((votingSessions s sid)\<lparr>isActive := False\<rparr>)"
    by (simp add: tallyInv_def sessionTally_flag)
  from tallyInv_upd [OF assms(1) this ex] show ?thesis by (simp add: s')
next
  case (RegisterVoter voter)
  with assms show ?thesis
    by (auto simp add: registerVoter_def onlyOwner_def tallyInv_def split: if_splits)
next
  case (RegisterMultipleVoters voters)
  with assms show ?thesis
    by (auto simp add: registerMultipleVoters_def onlyOwner_def tallyInv_registerEach split: if_splits)
next
  case RegisterSelf
  with assms show ?thesis
    by (auto simp add: registerSelf_def tallyInv_def split: if_splits)
next
  case (Vote sid cid)
  with assms tallyInv_vote show ?thesis by simp
qed

lemma tallyInv_transact: "tallyInv s \<Longrightarrow> tallyInv (transact t s)"
  by (cases t) (auto simp add: transact_def split: sum.splits dest: tallyInv_dispatch)

lemma tallyInv_run: "tallyInv s \<Longrightarrow> tallyInv (run ts s)"
  by (induction ts arbitrary: s) (simp_all add: tallyInv_transact)

text \<open>
  Claim C1. After every sequence of transactions from deployment, every created session
  has \<open>totalVotes\<close> equal to the sum of \<open>voteCount\<close> over all its candidates, active or
  not, and equal to the number of addresses whose \<open>hasVoted\<close> flag is set in that session.
  A transaction that reverts commits nothing, so the states \<open>run ts (constructor a)\<close> are
  exactly the states after committed operations.
\<close>
theorem tally_invariant:
  "isCreated (votingSessions (run ts (constructor a)) sid) \<longrightarrow>
     totalVotes (votingSessions (run ts (constructor a)) sid)
       = (\<Sum>i = 1..candidateCount (votingSessions (run ts (constructor a)) sid).
            voteCount (candidates (votingSessions (run ts (constructor a)) sid) i))
   \<and> totalVotes (votingSessions (run ts (constructor a)) sid)
       = card {v. hasVoted (votingSessions (run ts (constructor a)) sid) v}"
proof -
  have "tallyInv (run ts (constructor a))"
    by (rule tallyInv_run [OF tallyInv_constructor])
  then have "sessionTally (votingSessions (run ts (constructor a)) sid)"
    by (simp add: tallyInv_def)
  then show ?thesis by (simp add: sessionTally_def)
qed

text \<open>
  The run in which voters 2 and 3 have voted: the session is created and all three
  quantities are 2.
\<close>
theorem tally_invariant_witness:
  "isCreated (votingSessions (run votedTxs (constructor deployer)) 1)
   \<and> totalVotes (votingSessions (run votedTxs (constructor deployer)) 1) = 2
   \<and> (\<Sum>i = 1..candidateCount (votingSessions (run votedTxs (constructor deployer)) 1).
         voteCount (candidates (votingSessions (run votedTxs (constructor deployer)) 1) i)) = 2
   \<and> card {v. hasVoted (votingSessions (run votedTxs (constructor deployer)) 1) v} = 2"
proof -
  have c: "isCreated (votingSessions (run votedTxs (constructor deployer)) 1)"
    by (simp add: contract_defs scenario_defs)
  have t: "totalVotes (votingSessions (run votedTxs (constructor deployer)) 1) = 2"
    by (simp add: contract_defs scenario_defs)
  from tally_invariant [of votedTxs deployer 1] c t show ?thesis by simp
qed

section \<open>One vote per voter and session\<close>
lemma votedInv_constructor: "votedInv (constructor a)"
  by (simp add: votedInv_def constructor_def zeroSession_def)

lemma voted_dispatch:
  assumes "hasVoted (votingSessions s sid) v" "dispatch sender now c s = Inr s'"
  shows "hasVoted (votingSessions s' sid) v
       \<and> voterChoice (votingSessions s' sid) v = voterChoice (votingSessions s sid) v"
proof (cases c)
  case (CreateSession sname t0 t1 names)
  with assms(2) obtain k where "createSession sender now sname t0 t1 names s = Inr (k, s')"
    by (cases "createSession sender now sname t0 t1 names s") auto
  note r = createSession_Inr [OF this]
  show ?thesis
  proof (cases "sid = k")
    case True
    from r have e: "votingSessions s' k = (votingSessions s k)
           \<lparr>sessionId := k, sessionName := sname, startTime := t0, endTime := t1,
            isActive := False, isCreated := True, candidateCount := length names, totalVotes := 0,
            candidates := candidates (votingSessions s' k)\<rparr>" by blast
    have "hasVoted (votingSessions s' k) = hasVoted (votingSessions s k)"
      "voterChoice (votingSessions s' k) = voterChoice (votingSessions s k)"
      by (subst e, simp)+
    with assms(1) True show ?thesis by simp
  next
    case False
    with r assms(1) show ?thesis by simp
  qed
next
  case (AddCandidateToSession k cname)
  with assms show ?thesis by (auto dest!: addCandidateToSession_Inr)
next
  case (UpdateCandidate k cid newName)
  with assms show ?thesis by (auto dest!: updateCandidate_Inr)
next
  case (RemoveCandidateFromSession k cid)
  with assms show ?thesis by (auto dest!: removeCandidateFromSession_Inr)
next
  case (StartSession k)
  with assms show ?thesis by (auto dest!: startSession_Inr)
next
  case (EndSession k)
  with assms show ?thesis by (auto dest!: endSession_Inr)
next
  case (RegisterVoter voter)
  with assms show ?thesis by (auto simp add: registerVoter_def onlyOwner_def split: if_splits)
next
  case (RegisterMultipleVoters voters)
  with assms show ?thesis
    by (auto simp add: registerMultipleVoters_def onlyOwner_def registerEach_frame split: if_splits)
next
  case RegisterSelf
  with assms show ?thesis by (auto simp add: registerSelf_def split: if_splits)
next
  case (Vote k cid)
  with assms show ?thesis by (auto dest!: vote_Inr)
qed

lemma existingSession_upd:
  "isCreated S = isCreated (votingSessions s k)
   \<Longrightarrow> existingSession (s\<lparr>votingSessions := (votingSessions s)(k := S), events := ev\<rparr>) sid
       = existingSession s sid"
  by (simp add: existingSession_def)

lemma votedInv_upd:
  assumes "votedInv s" "isCreated S = isCreated (votingSessions s k)"
    "\<forall>v. hasVoted S v \<longrightarrow> existingSession s k \<and> registeredVoters s v"
  shows "votedInv (s\<lparr>votingSessions := (votingSessions s)(k := S), events := ev\<rparr>)"
  using assms by (auto simp add: votedInv_def existingSession_def)

lemma votedInv_dispatch:
  assumes "votedInv s" "dispatch sender now c s = Inr s'"
  shows "votedInv s'"
proof (cases c)
  case (CreateSession sname t0 t1 names)
  with assms(2) obtain k where "createSession sender now sname t0 t1 names s = Inr (k, s')"
    by (cases "createSession sender now sname t0 t1 names s") auto
  note r = createSession_Inr [OF this]
  from r have e: "votingSessions s' k = (votingSessions s k)
           \<lparr>sessionId := k, sessionName := sname, startTime := t0, endTime := t1,
            isActive := False, isCreated := True, candidateCount := length names, totalVotes := 0,
            candidates := candidates (votingSessions s' k)\<rparr>" by blast
  have hv: "hasVoted (votingSessions s' k) = hasVoted (votingSessions s k)" by (subst e) simp
  have cr: "isCreated (votingSessions s' k)" by (subst e) simp
  have nok: "\<not> existingSession s k" using r by (simp add: existingSession_def)
  show ?thesis unfolding votedInv_def
  proof (intro allI impI)
    fix sid v assume h: "hasVoted (votingSessions s' sid) v"
    have "sid \<noteq> k"
    proof
      assume "sid = k"
      with h hv have "hasVoted (votingSessions s k) v" by simp
      with assms(1) nok show False by (simp add: votedInv_def)
    qed
    with r h have "hasVoted (votingSessions s sid) v" and same: "votingSessions s' sid = votingSessions s sid"
      by simp_all
    with assms(1) have "existingSession s sid" "registeredVoters s v" by (simp_all add: votedInv_def)
    with r same show "existingSession s' sid \<and> registeredVoters s' v"
      by (simp add: existingSession_def)
  qed
next
  case (AddCandidateToSession k cname)
  with assms(2) have a: "addCandidateToSession sender now k cname s = Inr s'" by simp
  show ?thesis
    by (subst addCandidateToSession_Inr [OF a], rule votedInv_upd [OF assms(1)])
      (use assms(1) in \<open>simp_all add: votedInv_def\<close>)
next
  case (UpdateCandidate k cid newName)
  with assms(2) have a: "updateCandidate sender now k cid newName s = Inr s'" by simp
  from updateCandidate_Inr [OF a] have e: "s' = s\<lparr>votingSessions := (votingSessions s)(k := (votingSessions s k)
                  \<lparr>candidates := (candidates (votingSessions s k))
                     (cid := (candidates (votingSessions s k) cid)\<lparr>name_c := newName\<rparr>)\<rparr>),
                events := events s @ [CandidateUpdated k cid newName]\<rparr>" by blast
  show ?thesis
    by (subst e, rule votedInv_upd [OF assms(1)]) (use assms(1) in \<open>simp_all add: votedInv_def\<close>)
next
  case (RemoveCandidateFromSession k cid)
  with assms(2) have a: "removeCandidateFromSession sender now k cid s = Inr s'" by simp
  from removeCandidateFromSession_Inr [OF a] have e: "s' = s\<lparr>votingSessions := (votingSessions s)(k := (votingSessions s k)
                  \<lparr>candidates := (candidates (votingSessions s k))
                     (cid := (candidates (votingSessions s k) cid)\<lparr>isActive_c := False\<rparr>)\<rparr>),
                events := events s @ [CandidateRemoved k cid]\<rparr>" by blast
  show ?thesis
    by (subst e, rule votedInv_upd [OF assms(1)]) (use assms(1) in \<open>simp_all add: votedInv_def\<close>)
next
  case (StartSession k)
  with assms(2) have a: "startSession sender now k s = Inr s'" by simp
  from startSession_Inr [OF a] have e: "s' = s\<lparr>votingSessions := (votingSessions s)
                  (k := (votingSessions s k)\<lparr>isActive := True\<rparr>),
                events := events s @ [SessionStarted k]\<rparr>" by blast
  show ?thesis
    by (subst e, rule votedInv_upd [OF assms(1)]) (use assms(1) in \<open>simp_all add: votedInv_def\<close>)
next
  case (EndSession k)
  with assms(2) have a: "endSession sender k s = Inr s'" by simp
  from endSession_Inr [OF a] have e: "s' = s\<lparr>votingSessions := (votingSessions s)
                  (k := (votingSessions s k)\<lparr>isActive := False\<rparr>),
                events := events s @ [SessionEnded k]\<rparr>" by blast
  show ?thesis
    by (subst e, rule votedInv_upd [OF assms(1)]) (use assms(1) in \<open>simp_all add: votedInv_def\<close>)
next
  case (RegisterVoter voter)
  with assms show ?thesis
    by (auto simp add: registerVoter_def onlyOwner_def votedInv_def existingSession_def
        split: if_splits)
next
  case (RegisterMultipleVoters voters)
  with assms show ?thesis
    by (auto simp add: registerMultipleVoters_def onlyOwner_def votedInv_def existingSession_def
        registerEach_frame split: if_splits)
next
  case RegisterSelf
  with assms show ?thesis
    by (auto simp add: registerSelf_def votedInv_def existingSession_def split: if_splits)
next
  case (Vote k cid)
  with assms(2) have a: "vote sender now k cid s = Inr s'" by simp
  note r = vote_Inr [OF a]
  from r have e: "s' = s\<lparr>votingSessions := (votingSessions s)(k := (votingSessions s k)
                  \<lparr>hasVoted := (hasVoted (votingSessions s k))(sender := True),
                   voterChoice := (voterChoice (votingSessions s k))(sender := cid),
                   candidates := (candidates (votingSessions s k))
                     (cid := (candidates (votingSessions s k) cid)
                        \<lparr>voteCount := voteCount (candidates (votingSessions s k) cid) + 1\<rparr>),
                   totalVotes := totalVotes (votingSessions s k) + 1\<rparr>),
                events := events s @ [VoteCast k sender cid]\<rparr>" by blast
  show ?thesis
    by (subst e, rule votedInv_upd [OF assms(1)]) (use assms(1) r in \<open>auto simp add: votedInv_def\<close>)
qed

lemma votedInv_run: "votedInv s \<Longrightarrow> votedInv (run ts s)"
proof (induction ts arbitrary: s)
  case Nil
  then show ?case by simp
next
  case (Cons t ts)
  obtain sender now c where t: "t = (sender, now, c)" by (cases t)
  have "votedInv (transact t s)"
    using Cons.prems votedInv_dispatch [of s sender now c]
    by (simp add: transact_def t split: sum.splits)
  then show ?case using Cons.IH by simp
qed

lemma voted_run:
  assumes "hasVoted (votingSessions s sid) v"
  shows "hasVoted (votingSessions (run ts s) sid) v
       \<and> voterChoice (votingSessions (run ts s) sid) v = voterChoice (votingSessions s sid) v"
  using assms
proof (induction ts arbitrary: s)
  case Nil
  then show ?case by simp
next
  case (Cons t ts)
  obtain sender now c where t: "t = (sender, now, c)" by (cases t)
  have st: "hasVoted (votingSessions (transact t s) sid) v
       \<and> voterChoice (votingSessions (transact t s) sid) v = voterChoice (votingSessions s sid) v"
    using Cons.prems voted_dispatch [of s sid v sender now c]
    by (simp add: transact_def t split: sum.splits)
  with Cons.IH [of "transact t s"] show ?case by simp
qed

text \<open>
  Claim C2. Once \<open>hasVoted\<close> is set for a voter in a session it stays set and the
  recorded \<open>voterChoice\<close> never changes, whatever transactions follow; every later
  \<open>vote\<close> by that voter in that session reverts, with \<open>Session not active\<close> or with
  \<open>Already voted in this session\<close>, both state errors. A \<open>vote\<close> that commits finds the
  flag unset and sets it, so no run records a vote twice for the same voter and session.
\<close>
theorem vote_recorded_once:
  "(hasVoted (votingSessions (run ts (constructor a)) sid) v \<longrightarrow>
      hasVoted (votingSessions (run (ts @ us) (constructor a)) sid) v
    \<and> voterChoice (votingSessions (run (ts @ us) (constructor a)) sid) v
        = voterChoice (votingSessions (run ts (constructor a)) sid) v
    \<and> (\<exists>e. vote v now sid cid (run (ts @ us) (constructor a)) = Inl e
           \<and> errorKindOf e = Some StateError))
   \<and> (vote v now sid cid (run ts (constructor a)) = Inr s' \<longrightarrow>
        \<not> hasVoted (votingSessions (run ts (constructor a)) sid) v
        \<and> hasVoted (votingSessions s' sid) v
        \<and> voterChoice (votingSessions s' sid) v = cid)"
proof (intro conjI impI)
  assume h: "hasVoted (votingSessions (run ts (constructor a)) sid) v"
  note p = voted_run [OF h, of us, folded run_append]
  from p show "hasVoted (votingSessions (run (ts @ us) (constructor a)) sid) v" by simp
  from p show "voterChoice (votingSessions (run (ts @ us) (constructor a)) sid) v
        = voterChoice (votingSessions (run ts (constructor a)) sid) v" by simp
  have "votedInv (run (ts @ us) (constructor a))"
    by (rule votedInv_run [OF votedInv_constructor])
  with p have "existingSession (run (ts @ us) (constructor a)) sid"
    "registeredVoters (run (ts @ us) (constructor a)) v"
    unfolding votedInv_def by blast+
  with p show "\<exists>e. vote v now sid cid (run (ts @ us) (constructor a)) = Inl e
           \<and> errorKindOf e = Some StateError"
    by (simp add: vote_def sessionExists_eq kind_simps)
next
  assume "vote v now sid cid (run ts (constructor a)) = Inr s'"
  note r = vote_Inr [OF this]
  from r show "\<not> hasVoted (votingSessions (run ts (constructor a)) sid) v" by simp
  from r have e: "s' = (run ts (constructor a))\<lparr>votingSessions := (votingSessions (run ts (constructor a)))(sid := (votingSessions (run ts (constructor a)) sid)
                  \<lparr>hasVoted := (hasVoted (votingSessions (run ts (constructor a)) sid))(v := True),
                   voterChoice := (voterChoice (votingSessions (run ts (constructor a)) sid))(v := cid),
                   candidates := (candidates (votingSessions (run ts (constructor a)) sid))
                     (cid := (candidates (votingSessions (run ts (constructor a)) sid) cid)
                        \<lparr>voteCount := voteCount (candidates (votingSessions (run ts (constructor a)) sid) cid) + 1\<rparr>),
                   totalVotes := totalVotes (votingSessions (run ts (constructor a)) sid) + 1\<rparr>),
                events := events (run ts (constructor a)) @ [VoteCast sid v cid]\<rparr>" by blast
  show "hasVoted (votingSessions s' sid) v" by (subst e) simp
  show "voterChoice (votingSessions s' sid) v = cid" by (subst e) simp
qed

text \<open>
  Voter 2 has voted for candidate 2; after the session is ended the record is still there
  and a further vote of voter 2 reverts with a state error. The vote itself was cast on a
  state in which the flag was not set.
\<close>
theorem vote_recorded_once_witness:
  "hasVoted (votingSessions (run votedTxs (constructor deployer)) 1) voterB
   \<and> hasVoted (votingSessions (run (votedTxs @ [(deployer, 130, EndSession 1)]) (constructor deployer)) 1) voterB
   \<and> voterChoice (votingSessions (run (votedTxs @ [(deployer, 130, EndSession 1)]) (constructor deployer)) 1) voterB = 2
   \<and> (\<exists>e. vote voterB 150 1 1 (run (votedTxs @ [(deployer, 130, EndSession 1)]) (constructor deployer)) = Inl e
          \<and> errorKindOf e = Some StateError)
   \<and> vote voterB 110 1 2 (run openedTxs (constructor deployer))
        = Inr (transact (voterB, 110, Vote 1 2) (run openedTxs (constructor deployer)))
   \<and> \<not> hasVoted (votingSessions (run openedTxs (constructor deployer)) 1) voterB
   \<and> hasVoted (votingSessions (transact (voterB, 110, Vote 1 2) (run openedTxs (constructor deployer))) 1) voterB"
proof -
  have h: "hasVoted (votingSessions (run votedTxs (constructor deployer)) 1) voterB"
    by (simp add: contract_defs scenario_defs)
  have c: "voterChoice (votingSessions (run votedTxs (constructor deployer)) 1) voterB = 2"
    by (simp add: contract_defs scenario_defs)
  have v: "vote voterB 110 1 2 (run openedTxs (constructor deployer))
        = Inr (transact (voterB, 110, Vote 1 2) (run openedTxs (constructor deployer)))"
    by (simp add: contract_defs scenario_defs)
  from h c v
    vote_recorded_once [where ts = votedTxs and a = deployer and sid = 1 and v = voterB
      and us = "[(deployer, 130, EndSession 1)]" and now = 150 and cid = 1]
    vote_recorded_once [where ts = openedTxs and a = deployer and sid = 1 and v = voterB
      and now = 110 and cid = 2
      and s' = "transact (voterB, 110, Vote 1 2) (run openedTxs (constructor deployer))"]
  show ?thesis by simp
qed

section \<open>All or nothing\<close>
lemma addCandidateToSession_empty:
  "\<exists>e. addCandidateToSession sender now sid [] s = Inl e"
  by (simp add: addCandidateToSession_def onlyOwner_def sessionExists_def sessionNotActive_def)

lemma addCandidates_empty:
  "[] \<in> set names \<Longrightarrow> \<exists>e. addCandidates sender now names s = Inl e"
proof (induction names arbitrary: s)
  case Nil
  then show ?case by simp
next
  case (Cons n ns)
  show ?case
  proof (cases "addCandidateToSession sender now (sessionCount s) n s")
    case (Inl e)
    then show ?thesis by simp
  next
    case (Inr s1)
    with addCandidateToSession_empty [of sender now "sessionCount s" s] have "n \<noteq> []" by auto
    with Cons.prems have "[] \<in> set ns" by auto
    from Cons.IH [OF this, of s1] Inr show ?thesis by simp
  qed
qed

lemma createSession_empty:
  "[] \<in> set names \<Longrightarrow> \<exists>e. createSession sender now sname start end names s = Inl e"
proof -
  assume a: "[] \<in> set names"
  define s1 where "s1 = s\<lparr>sessionCount := sessionCount s + 1,
      votingSessions := (votingSessions s)
        (sessionCount s + 1 := (votingSessions s (sessionCount s + 1))
           \<lparr>sessionId := sessionCount s + 1, sessionName := sname, startTime := start,
            endTime := end, isActive := False, isCreated := True, candidateCount := 0,
            totalVotes := 0\<rparr>)\<rparr>"
  from addCandidates_empty [OF a] obtain e where "addCandidates sender now names s1 = Inl e"
    by blast
  then show ?thesis
    by (auto simp add: createSession_def onlyOwner_def Let_def s1_def)
qed

subsection \<open>A committed call has its complete effect\<close>
lemma addCandidateToSession_effect:
  assumes "addCandidateToSession sender now sid n s = Inr s'"
  shows "s' = addCandidateEffect sid n s"
  using addCandidateToSession_Inr [OF assms] by (simp add: addCandidateEffect_def Let_def)

lemma sessionCount_addCandidateEffect:
  "sessionCount (addCandidateEffect sid n s) = sessionCount s"
  by (simp add: addCandidateEffect_def Let_def)

lemma addCandidates_effect:
  assumes "addCandidates sender now names s = Inr s'"
  shows "s' = fold (addCandidateEffect (sessionCount s)) names s"
  using assms
proof (induction names arbitrary: s)
  case Nil
  then show ?case by simp
next
  case (Cons n ns)
  from Cons.prems obtain s1 where
    a: "addCandidateToSession sender now (sessionCount s) n s = Inr s1"
    and b: "addCandidates sender now ns s1 = Inr s'"
    by (auto split: sum.splits)
  have e: "s1 = addCandidateEffect (sessionCount s) n s"
    by (rule addCandidateToSession_effect [OF a])
  then have c: "sessionCount s1 = sessionCount s"
    by (simp add: sessionCount_addCandidateEffect)
  from Cons.IH [OF b] show ?case by (simp add: e sessionCount_addCandidateEffect)
qed

lemma sessionCount_fold_addCandidateEffect:
  "sessionCount (fold (addCandidateEffect sid) names s) = sessionCount s"
  by (induction names arbitrary: s) (simp_all add: sessionCount_addCandidateEffect)

lemma createSession_effect:
  assumes "createSession sender now sname start stop names s = Inr (k, s')"
  shows "s' = createSessionEffect sname start stop names s"
proof -
  define n where "n = sessionCount s + 1"
  define s1 where "s1 = s\<lparr>sessionCount := n, votingSessions := (votingSessions s)
      (n := (votingSessions s n)
         \<lparr>sessionId := n, sessionName := sname, startTime := start, endTime := stop,
          isActive := False, isCreated := True, candidateCount := 0, totalVotes := 0\<rparr>)\<rparr>"
  from assms obtain s2 where
    loop: "addCandidates sender now names s1 = Inr s2"
    and res: "s' = s2\<lparr>events := events s2 @ [SessionCreated (sessionCount s2) sname start stop]\<rparr>"
    by (auto simp add: createSession_def onlyOwner_def Let_def s1_def n_def
        split: if_splits sum.splits)
  have c1: "sessionCount s1 = n" by (simp add: s1_def)
  have s2: "s2 = fold (addCandidateEffect n) names s1"
    using addCandidates_effect [OF loop] by (simp only: c1)
  have c2: "sessionCount s2 = n"
    by (simp only: s2 sessionCount_fold_addCandidateEffect c1)
  have "s' = (fold (addCandidateEffect n) names s1)
      \<lparr>events := events (fold (addCandidateEffect n) names s1) @ [SessionCreated n sname start stop]\<rparr>"
    using res c2 s2 by simp
  then show ?thesis
    by (simp add: createSessionEffect_def Let_def s1_def n_def)
qed

lemma registerEach_effect:
  "registerEach voters s =
     fold (\<lambda>v s'. if \<not> registeredVoters s' v \<and> v \<noteq> 0 then registerEffect v s' else s') voters s"
  by (induction voters arbitrary: s) (simp_all add: registerEffect_def)

lemma dispatch_effect:
  assumes "dispatch sender now c s = Inr s'"
  shows "s' = fullEffect sender c s"
proof (cases c)
  case (CreateSession sname t0 t1 names)
  with assms obtain k where "createSession sender now sname t0 t1 names s = Inr (k, s')"
    by (cases "createSession sender now sname t0 t1 names s") auto
  from createSession_effect [OF this] CreateSession show ?thesis by simp
next
  case (AddCandidateToSession k cname)
  with assms addCandidateToSession_effect show ?thesis by simp
next
  case (UpdateCandidate k cid newName)
  with assms updateCandidate_Inr [of sender now k cid newName s s'] show ?thesis by simp
next
  case (RemoveCandidateFromSession k cid)
  with assms removeCandidateFromSession_Inr [of sender now k cid s s'] show ?thesis by simp
next
  case (StartSession k)
  with assms startSession_Inr [of sender now k s s'] show ?thesis by simp
next
  case (EndSession k)
  with assms endSession_Inr [of sender k s s'] show ?thesis by simp
next
  case (RegisterVoter voter)
  with assms show ?thesis
    by (auto simp add: registerVoter_def onlyOwner_def registerEffect_def split: if_splits)
next
  case (RegisterMultipleVoters voters)
  with assms show ?thesis
    by (auto simp add: registerMultipleVoters_def onlyOwner_def registerEach_effect
        split: if_splits)
next
  case RegisterSelf
  with assms show ?thesis
    by (auto simp add: registerSelf_def registerEffect_def split: if_splits)
next
  case (Vote k cid)
  with assms vote_Inr [of sender now k cid s s'] show ?thesis
    by (simp add: voteEffect_def Let_def)
qed

text \<open>
  Claim C3. Every mutating function is all-or-nothing: a call of any of the ten functions
  has exactly two outcomes. Either it fails, and then the committed storage and event log
  are those before the call; or it succeeds, and then the committed state is the complete
  effect of the operation, \<open>fullEffect\<close>. No call commits a part of its effect. The
  first outcome is the revert of the platform, which undoes the whole call; the second is
  a property of the function bodies: none returns normally after a part of its writes,
  and the loop of \<open>createSession\<close> passes on the failure of an internal call instead of
  skipping the candidate. In particular \<open>createSession\<close> with an empty candidate name
  anywhere in the list fails, also when \<open>sessionCount\<close> has been incremented and earlier
  candidates have been added by then, and it leaves \<open>sessionCount\<close>, the sessions and
  the event log as they were.
\<close>
theorem all_or_nothing:
  "((\<exists>e. dispatch sender now c s = Inl e) \<and> transact (sender, now, c) s = s
    \<or> dispatch sender now c s = Inr (fullEffect sender c s)
       \<and> transact (sender, now, c) s = fullEffect sender c s)
   \<and> ([] \<in> set names \<longrightarrow>
        (\<exists>e. createSession sender now sname start stop names s = Inl e)
        \<and> transact (sender, now, CreateSession sname start stop names) s = s)"
proof (intro conjI impI)
  show "(\<exists>e. dispatch sender now c s = Inl e) \<and> transact (sender, now, c) s = s
    \<or> dispatch sender now c s = Inr (fullEffect sender c s)
       \<and> transact (sender, now, c) s = fullEffect sender c s"
  proof (cases "dispatch sender now c s")
    case (Inl e)
    then show ?thesis by (simp add: transact_def)
  next
    case (Inr s')
    with dispatch_effect [OF Inr] show ?thesis by (simp add: transact_def)
  qed
next
  assume a: "[] \<in> set names"
  from createSession_empty [OF a]
  show f: "\<exists>e. createSession sender now sname start stop names s = Inl e" .
  then show "transact (sender, now, CreateSession sname start stop names) s = s"
    by (auto simp add: transact_def)
qed

text \<open>
  Creating a session with the names \<open>Alice\<close> and the empty string fails at the second
  candidate and commits nothing; the vote of voter 2 on the started session succeeds and
  commits all of its effect: the flag, the choice, both counters and the event.
\<close>
theorem all_or_nothing_witness:
  "dispatch deployer 50 (CreateSession ''Election'' 100 200 [''Alice'', '''']) (constructor deployer)
     = Inl (Revert ''Candidate name cannot be empty'')
   \<and> [] \<in> set [''Alice'', '''']
   \<and> transact (deployer, 50, CreateSession ''Election'' 100 200 [''Alice'', '''']) (constructor deployer)
       = constructor deployer
   \<and> dispatch voterB 110 (Vote 1 2) opened = Inr (fullEffect voterB (Vote 1 2) opened)
   \<and> transact (voterB, 110, Vote 1 2) opened = fullEffect voterB (Vote 1 2) opened
   \<and> hasVoted (votingSessions (transact (voterB, 110, Vote 1 2) opened) 1) voterB
   \<and> totalVotes (votingSessions (transact (voterB, 110, Vote 1 2) opened) 1) = 1"
proof -
  have d: "dispatch deployer 50 (CreateSession ''Election'' 100 200 [''Alice'', '''']) (constructor deployer)
     = Inl (Revert ''Candidate name cannot be empty'')"
    by (simp add: contract_defs scenario_defs)
  have m: "[] \<in> set [''Alice'', '''']" by simp
  note bad = all_or_nothing [where sender = deployer and now = 50
      and c = "CreateSession ''Election'' 100 200 [''Alice'', '''']" and s = "constructor deployer"
      and names = "[''Alice'', '''']" and sname = "''Election''" and start = 100 and stop = 200]
  from bad m have u: "transact (deployer, 50, CreateSession ''Election'' 100 200 [''Alice'', ''''])
      (constructor deployer) = constructor deployer"
    by blast
  have v: "dispatch voterB 110 (Vote 1 2) opened = Inr (transact (voterB, 110, Vote 1 2) opened)"
    by (simp add: contract_defs scenario_defs)
  note good = all_or_nothing [where sender = voterB and now = 110 and c = "Vote 1 2"
      and s = opened and names = "[]"]
  from good v have w: "dispatch voterB 110 (Vote 1 2) opened = Inr (fullEffect voterB (Vote 1 2) opened)"
    "transact (voterB, 110, Vote 1 2) opened = fullEffect voterB (Vote 1 2) opened"
    by auto
  have x: "hasVoted (votingSessions (transact (voterB, 110, Vote 1 2) opened) 1) voterB"
    "totalVotes (votingSessions (transact (voterB, 110, Vote 1 2) opened) 1) = 1"
    by (simp_all add: contract_defs scenario_defs)
  from d m u w x show ?thesis by blast
qed

section \<open>The winner of a session\<close>
lemma winnerLoop_fold:
  "n < MAX_UINT256 \<Longrightarrow> winnerLoop cs n i acc = Inr (fold (winnerStep cs) [i..<Suc n] acc)"
proof (induction cs n i acc rule: winnerLoop.induct)
  case (1 cs n i acc)
  show ?case
  proof (cases "i \<le> n")
    case True
    with "1.prems" have lt: "i < MAX_UINT256" by simp
    from True have "[i..<Suc n] = i # [i + 1..<Suc n]" by (simp add: upt_conv_Cons)
    with "1.IH" [OF True lt "1.prems"] True lt show ?thesis
      by (subst winnerLoop.simps) simp
  next
    case False
    then show ?thesis by (subst winnerLoop.simps) simp
  qed
qed

lemma activeIds_Suc:
  "activeIds cs (Suc k) = (if isActive_c (cs (Suc k)) then insert (Suc k) (activeIds cs k) else activeIds cs k)"
  by (auto simp add: activeIds_def le_Suc_eq)

lemma finite_activeIds: "finite (activeIds cs n)"
  by (simp add: activeIds_def)

lemma activeIds_le: "i \<in> activeIds cs n \<Longrightarrow> i \<le> n"
  by (simp add: activeIds_def)

lemma scanInv_0: "scanInv cs 0 (0, 0, 0)"
  by (simp add: scanInv_def activeIds_def)

lemma scanInv_step:
  assumes "scanInv cs k acc"
  shows "scanInv cs (Suc k) (winnerStep cs (Suc k) acc)"
proof -
  obtain m w t where acc: "acc = (m, w, t)" by (cases acc)
  note inv = assms [unfolded acc scanInv_def, simplified]
  have notin: "Suc k \<notin> activeIds cs k" using activeIds_le [of "Suc k" cs k] by auto
  show ?thesis
  proof (cases "isActive_c (cs (Suc k))")
    case False
    then have "activeIds cs (Suc k) = activeIds cs k" by (simp add: activeIds_Suc)
    with assms False show ?thesis by (simp add: acc winnerStep_def scanInv_def)
  next
    case act: True
    then have A: "activeIds cs (Suc k) = insert (Suc k) (activeIds cs k)"
      by (simp add: activeIds_Suc)
    consider (gt) "voteCount (cs (Suc k)) > m"
      | (eq) "voteCount (cs (Suc k)) = m" "0 < m"
      | (none) "voteCount (cs (Suc k)) \<le> m" "\<not> (voteCount (cs (Suc k)) = m \<and> 0 < m)"
      by linarith
    then show ?thesis
    proof cases
      case gt
      have "{i \<in> insert (Suc k) (activeIds cs k). voteCount (cs i) = voteCount (cs (Suc k))} = {Suc k}"
        using inv gt by auto
      with gt inv act show ?thesis
        by (auto simp add: acc winnerStep_def scanInv_def A)
    next
      case eq
      with inv have w: "w \<noteq> 0" by auto
      have "{i \<in> insert (Suc k) (activeIds cs k). voteCount (cs i) = m}
          = insert (Suc k) {i \<in> activeIds cs k. voteCount (cs i) = m}"
        using eq by auto
      moreover have "Suc k \<notin> {i \<in> activeIds cs k. voteCount (cs i) = m}" using notin by simp
      moreover have "finite {i \<in> activeIds cs k. voteCount (cs i) = m}"
        using finite_activeIds by simp
      ultimately have c: "card {i \<in> insert (Suc k) (activeIds cs k). voteCount (cs i) = m}
          = Suc (card {i \<in> activeIds cs k. voteCount (cs i) = m})"
        by simp
      have le: "w \<le> Suc k" using inv w activeIds_le [of w cs k] by auto
      from eq inv act w c le show ?thesis
        by (auto simp add: acc winnerStep_def scanInv_def A)
    next
      case none
      then have "{i \<in> insert (Suc k) (activeIds cs k). voteCount (cs i) = m}
          = (if m = 0 then insert (Suc k) {i \<in> activeIds cs k. voteCount (cs i) = m}
             else {i \<in> activeIds cs k. voteCount (cs i) = m})"
        by auto
      with none inv act show ?thesis
        by (auto simp add: acc winnerStep_def scanInv_def A)
    qed
  qed
qed

lemma scanInv_fold: "scanInv cs n (fold (winnerStep cs) [1..<Suc n] (0, 0, 0))"
proof (induction n)
  case 0
  show ?case by (simp add: scanInv_0)
next
  case (Suc n)
  have "[1..<Suc (Suc n)] = [1..<Suc n] @ [Suc n]" by simp
  then show ?case using scanInv_step [OF Suc] by (simp del: upt_Suc)
qed

lemma getSessionWinner_scan:
  assumes "existingSession s sid" "0 < totalVotes (votingSessions s sid)"
    "candidateCount (votingSessions s sid) < MAX_UINT256"
  obtains m w t where
    "scanInv (candidates (votingSessions s sid)) (candidateCount (votingSessions s sid)) (m, w, t)"
    "getSessionWinner s sid =
       (if w > 0 then Inr (name_c (candidates (votingSessions s sid) w), m, t > 1)
        else Inr (''No winner'', 0, False))"
proof -
  define cs where "cs = candidates (votingSessions s sid)"
  define n where "n = candidateCount (votingSessions s sid)"
  obtain m w t where f: "fold (winnerStep cs) [1..<Suc n] (0, 0, 0) = (m, w, t)"
    by (cases "fold (winnerStep cs) [1..<Suc n] (0, 0, 0)")
  have "scanInv cs n (m, w, t)" using scanInv_fold [of cs n] by (simp only: f)
  moreover have "winnerLoop cs n 1 (0, 0, 0) = Inr (m, w, t)"
  proof -
    have "n < MAX_UINT256" using assms(3) by (simp add: n_def)
    from winnerLoop_fold [OF this, of cs 1 "(0, 0, 0)"] show ?thesis by (simp only: f)
  qed
  then have "getSessionWinner s sid =
       (if w > 0 then Inr (name_c (cs w), m, t > 1) else Inr (''No winner'', 0, False))"
    using assms(1,2) by (simp add: getSessionWinner_def sessionExists_eq cs_def n_def)
  ultimately show ?thesis using that by (simp add: cs_def n_def)
qed

text \<open>
  Claim C4, amended. On an existing session with \<open>totalVotes = 0\<close>,
  \<open>getSessionWinner\<close> returns \<open>(No votes cast, 0, False)\<close>. With \<open>totalVotes > 0\<close> and at
  least one active candidate with a positive \<open>voteCount\<close>, it returns the name of the
  lowest-id active candidate whose \<open>voteCount\<close> is the maximum among the active
  candidates, that maximum, and the tie flag, which is set iff at least two active
  candidates have that maximum. (The loop counter is a checked \<^verbatim>\<open>uint256\<close>: the scan
  needs \<open>candidateCount\<close> below the largest value.) Without an active candidate that has
  votes the function names no candidate; that case is claim C10.
\<close>
theorem winner_of_session:
  assumes "existingSession s sid"
  shows "(totalVotes (votingSessions s sid) = 0 \<longrightarrow>
            getSessionWinner s sid = Inr (''No votes cast'', 0, False))
       \<and> (0 < totalVotes (votingSessions s sid)
          \<and> candidateCount (votingSessions s sid) < MAX_UINT256
          \<and> (\<exists>i \<in> activeIds (candidates (votingSessions s sid)) (candidateCount (votingSessions s sid)).
                0 < voteCount (candidates (votingSessions s sid) i)) \<longrightarrow>
            (\<exists>w \<in> activeIds (candidates (votingSessions s sid)) (candidateCount (votingSessions s sid)).
               (\<forall>i \<in> activeIds (candidates (votingSessions s sid)) (candidateCount (votingSessions s sid)).
                  voteCount (candidates (votingSessions s sid) i)
                    \<le> voteCount (candidates (votingSessions s sid) w)
                  \<and> (voteCount (candidates (votingSessions s sid) i)
                        = voteCount (candidates (votingSessions s sid) w) \<longrightarrow> w \<le> i))
             \<and> getSessionWinner s sid =
                 Inr (name_c (candidates (votingSessions s sid) w),
                      voteCount (candidates (votingSessions s sid) w),
                      2 \<le> card {i \<in> activeIds (candidates (votingSessions s sid))
                                        (candidateCount (votingSessions s sid)).
                                  voteCount (candidates (votingSessions s sid) i)
                                    = voteCount (candidates (votingSessions s sid) w)})))"
proof (intro conjI impI)
  assume "totalVotes (votingSessions s sid) = 0"
  with assms show "getSessionWinner s sid = Inr (''No votes cast'', 0, False)"
    by (simp add: getSessionWinner_def sessionExists_eq)
next
  define cs where "cs = candidates (votingSessions s sid)"
  define n where "n = candidateCount (votingSessions s sid)"
  assume "0 < totalVotes (votingSessions s sid)
          \<and> candidateCount (votingSessions s sid) < MAX_UINT256
          \<and> (\<exists>i \<in> activeIds (candidates (votingSessions s sid)) (candidateCount (votingSessions s sid)).
                0 < voteCount (candidates (votingSessions s sid) i))"
  then have tv: "0 < totalVotes (votingSessions s sid)"
    and small: "candidateCount (votingSessions s sid) < MAX_UINT256"
    and pos: "\<exists>i \<in> activeIds cs n. 0 < voteCount (cs i)"
    by (simp_all add: cs_def n_def)
  from getSessionWinner_scan [OF assms tv small] obtain m w t where
    inv: "scanInv cs n (m, w, t)"
    and res: "getSessionWinner s sid =
       (if w > 0 then Inr (name_c (cs w), m, t > 1) else Inr (''No winner'', 0, False))"
    unfolding cs_def n_def by blast
  from inv have le: "\<forall>i \<in> activeIds cs n. voteCount (cs i) \<le> m" by (simp add: scanInv_def)
  with pos have "0 < m" by fastforce
  with inv have w: "w \<noteq> 0" by (auto simp add: scanInv_def)
  with inv have win: "w \<in> activeIds cs n" and vw: "voteCount (cs w) = m"
    and first: "\<forall>i \<in> activeIds cs n. voteCount (cs i) = m \<longrightarrow> w \<le> i"
    and t: "t = card {i \<in> activeIds cs n. voteCount (cs i) = m}"
    by (simp_all add: scanInv_def)
  have "(\<forall>i \<in> activeIds cs n. voteCount (cs i) \<le> voteCount (cs w)
            \<and> (voteCount (cs i) = voteCount (cs w) \<longrightarrow> w \<le> i))
      \<and> getSessionWinner s sid =
          Inr (name_c (cs w), voteCount (cs w),
               2 \<le> card {i \<in> activeIds cs n. voteCount (cs i) = voteCount (cs w)})"
    using le first res w t by (auto simp add: vw)
  with win show "\<exists>w \<in> activeIds (candidates (votingSessions s sid)) (candidateCount (votingSessions s sid)).
               (\<forall>i \<in> activeIds (candidates (votingSessions s sid)) (candidateCount (votingSessions s sid)).
                  voteCount (candidates (votingSessions s sid) i)
                    \<le> voteCount (candidates (votingSessions s sid) w)
                  \<and> (voteCount (candidates (votingSessions s sid) i)
                        = voteCount (candidates (votingSessions s sid) w) \<longrightarrow> w \<le> i))
             \<and> getSessionWinner s sid =
                 Inr (name_c (candidates (votingSessions s sid) w),
                      voteCount (candidates (votingSessions s sid) w),
                      2 \<le> card {i \<in> activeIds (candidates (votingSessions s sid))
                                        (candidateCount (votingSessions s sid)).
                                  voteCount (candidates (votingSessions s sid) i)
                                    = voteCount (candidates (votingSessions s sid) w)})"
    unfolding cs_def n_def by blast
qed

text \<open>
  Before any vote the sentinel is returned; after one vote each for Bob (id 2) and Carol
  (id 3) the winner is Bob with one vote and a tie.
\<close>
theorem winner_of_session_witness:
  "existingSession opened 1 \<and> totalVotes (votingSessions opened 1) = 0
   \<and> getSessionWinner opened 1 = Inr (''No votes cast'', 0, False)
   \<and> existingSession voted 1 \<and> 0 < totalVotes (votingSessions voted 1)
   \<and> candidateCount (votingSessions voted 1) < MAX_UINT256
   \<and> 2 \<in> activeIds (candidates (votingSessions voted 1)) (candidateCount (votingSessions voted 1))
   \<and> 0 < voteCount (candidates (votingSessions voted 1) 2)
   \<and> getSessionWinner voted 1 = Inr (''Bob'', 1, True)"
proof -
  have a: "existingSession opened 1" "totalVotes (votingSessions opened 1) = 0"
    by (simp_all add: contract_defs scenario_defs)
  have b: "existingSession voted 1" "0 < totalVotes (votingSessions voted 1)"
    "candidateCount (votingSessions voted 1) < MAX_UINT256"
    "2 \<in> activeIds (candidates (votingSessions voted 1)) (candidateCount (votingSessions voted 1))"
    "0 < voteCount (candidates (votingSessions voted 1) 2)"
    by (simp_all add: contract_defs scenario_defs activeIds_def)
  have w: "getSessionWinner voted 1 = Inr (''Bob'', 1, True)"
    by (simp add: contract_defs scenario_defs)
  from a b w winner_of_session [OF a(1)] winner_of_session [OF b(1)] show ?thesis by simp
qed

text \<open>
  Claim C4 as stated fails when no active candidate has votes. After Bob and Carol have
  been removed, \<open>totalVotes\<close> is 2 and the only active candidate is Alice (id 1) with
  \<open>voteCount = 0\<close>, which is the maximum among the active candidates; the claim asks for
  the name \<open>Alice\<close>, the function returns \<open>No winner\<close>.
\<close>
theorem winner_all_zero_counterexample:
  "existingSession removed 1 \<and> totalVotes (votingSessions removed 1) = 2
   \<and> candidateCount (votingSessions removed 1) = 3
   \<and> isActive_c (candidates (votingSessions removed 1) 1)
   \<and> \<not> isActive_c (candidates (votingSessions removed 1) 2)
   \<and> \<not> isActive_c (candidates (votingSessions removed 1) 3)
   \<and> voteCount (candidates (votingSessions removed 1) 1) = 0
   \<and> name_c (candidates (votingSessions removed 1) 1) = ''Alice''
   \<and> getSessionWinner removed 1 = Inr (''No winner'', 0, False)"
  by (simp add: contract_defs scenario_defs)

section \<open>Voting needs an active session\<close>

text \<open>
  Claim C5, amended. For every existing session and every registered caller, \<open>vote\<close>
  fails with the state error \<open>Session not active\<close> whenever \<open>isSessionActive\<close> is false,
  whatever the stored active flag is. \<open>isSessionActive\<close> is a total query: it is true iff
  the id is in \<open>1..sessionCount\<close>, the session is created, its active flag is set and
  \<open>startTime \<le> now \<le> endTime\<close>, so it is false for id 0 and for ids beyond
  \<open>sessionCount\<close>.
\<close>
theorem vote_needs_active_session:
  "(existingSession s sid \<and> registeredVoters s sender \<and> \<not> isSessionActive now s sid \<longrightarrow>
      vote sender now sid cid s = Inl (Revert ''Session not active'')
      \<and> errorKindOf (Revert ''Session not active'') = Some StateError)
   \<and> (isSessionActive now s sid \<longleftrightarrow>
        sid \<noteq> 0 \<and> sid \<le> sessionCount s \<and> isCreated (votingSessions s sid)
        \<and> isActive (votingSessions s sid)
        \<and> startTime (votingSessions s sid) \<le> now \<and> now \<le> endTime (votingSessions s sid))"
  by (auto simp add: vote_def sessionExists_eq kind_simps isSessionActive_def)

text \<open>
  The started session at time 300, after its window \<open>[100, 200]\<close>: the active flag is
  still set, the session is not active, and the vote of the registered voter 2 fails with
  the state error.
\<close>
theorem vote_needs_active_session_witness:
  "existingSession opened 1 \<and> registeredVoters opened voterB
   \<and> isActive (votingSessions opened 1) \<and> \<not> isSessionActive 300 opened 1
   \<and> vote voterB 300 1 1 opened = Inl (Revert ''Session not active'')
   \<and> errorKindOf (Revert ''Session not active'') = Some StateError"
proof -
  have a: "existingSession opened 1" "registeredVoters opened voterB"
    "isActive (votingSessions opened 1)" "\<not> isSessionActive 300 opened 1"
    by (simp_all add: contract_defs scenario_defs)
  from a vote_needs_active_session [of opened 1 voterB 300 1] show ?thesis by simp
qed

text \<open>
  Claim C5 as stated fails for a caller that is not registered: \<open>vote\<close> checks the
  registration before the activity of the session, so on the same inactive session the
  vote of address 4 fails with \<open>Not registered to vote\<close>, an authorisation error.
\<close>
theorem vote_unregistered_counterexample:
  "existingSession opened 1 \<and> isActive (votingSessions opened 1) \<and> \<not> isSessionActive 300 opened 1
   \<and> vote stranger 300 1 1 opened = Inl (Revert ''Not registered to vote'')
   \<and> errorKindOf (Revert ''Not registered to vote'') = Some AuthError"
  by (simp add: contract_defs scenario_defs errorKindOf_def)

section \<open>Creating a session\<close>

text \<open>
  Claim C6. Called by the owner, \<open>createSession\<close> fails with a validation error when the
  name is empty, when \<open>startTime \<ge> endTime\<close> or when the list of candidate names is
  empty, and \<open>sessionCount\<close> is then unchanged. When it succeeds, \<open>sessionCount\<close> has
  grown by one and is the returned id; the new session has the given name and window,
  \<open>active = False\<close>, \<open>created = True\<close>, \<open>totalVotes = 0\<close>, and the given candidates in
  input order under the ids \<open>1, 2, ...\<close>, each with \<open>voteCount = 0\<close> and active.
\<close>
theorem createSession_by_owner:
  assumes "sender = owner s"
  shows "(sname = [] \<or> start \<ge> stop \<or> names = [] \<longrightarrow>
            (\<exists>e. createSession sender now sname start stop names s = Inl e
                 \<and> errorKindOf e = Some ValidationError)
          \<and> sessionCount (transact (sender, now, CreateSession sname start stop names) s)
              = sessionCount s)
       \<and> (createSession sender now sname start stop names s = Inr (sid, s') \<longrightarrow>
            sessionCount s' = sessionCount s + 1 \<and> sid = sessionCount s'
          \<and> sessionId (votingSessions s' sid) = sid
          \<and> sessionName (votingSessions s' sid) = sname
          \<and> startTime (votingSessions s' sid) = start
          \<and> endTime (votingSessions s' sid) = stop
          \<and> isActive (votingSessions s' sid) = False
          \<and> isCreated (votingSessions s' sid) = True
          \<and> totalVotes (votingSessions s' sid) = 0
          \<and> candidateCount (votingSessions s' sid) = length names
          \<and> (\<forall>i < length names.
                candidates (votingSessions s' sid) (i + 1) =
                  \<lparr>id_c = i + 1, name_c = names ! i, voteCount = 0, isActive_c = True\<rparr>))"
proof (intro conjI impI)
  assume bad: "sname = [] \<or> start \<ge> stop \<or> names = []"
  then show "\<exists>e. createSession sender now sname start stop names s = Inl e
                 \<and> errorKindOf e = Some ValidationError"
    using assms by (auto simp add: createSession_def onlyOwner_def kind_simps)
  then show "sessionCount (transact (sender, now, CreateSession sname start stop names) s)
              = sessionCount s"
    by (auto simp add: transact_def)
next
  assume ok: "createSession sender now sname start stop names s = Inr (sid, s')"
  note r = createSession_Inr [OF ok]
  from r have e: "votingSessions s' sid = (votingSessions s sid)
           \<lparr>sessionId := sid, sessionName := sname, startTime := start, endTime := stop,
            isActive := False, isCreated := True, candidateCount := length names, totalVotes := 0,
            candidates := candidates (votingSessions s' sid)\<rparr>" by blast
  from r show "sessionCount s' = sessionCount s + 1" by blast
  from r show "sid = sessionCount s'" by simp
  show "sessionId (votingSessions s' sid) = sid" by (subst e) simp
  show "sessionName (votingSessions s' sid) = sname" by (subst e) simp
  show "startTime (votingSessions s' sid) = start" by (subst e) simp
  show "endTime (votingSessions s' sid) = stop" by (subst e) simp
  show "isActive (votingSessions s' sid) = False" by (subst e) simp
  show "isCreated (votingSessions s' sid) = True" by (subst e) simp
  show "totalVotes (votingSessions s' sid) = 0" by (subst e) simp
  show "candidateCount (votingSessions s' sid) = length names" by (subst e) simp
  from r show "\<forall>i < length names.
                candidates (votingSessions s' sid) (i + 1) =
                  \<lparr>id_c = i + 1, name_c = names ! i, voteCount = 0, isActive_c = True\<rparr>"
    by blast
qed

text \<open>
  On the deployed contract the owner creates session 1 with three candidates; the same
  call with the window \<open>[200, 100]\<close> fails with a validation error.
\<close>
theorem createSession_by_owner_witness:
  "deployer = owner (constructor deployer)
   \<and> createSession deployer 50 ''Election'' 100 200 [''Alice'', ''Bob'', ''Carol''] (constructor deployer)
       = Inr (1, transact (deployer, 50, CreateSession ''Election'' 100 200 [''Alice'', ''Bob'', ''Carol''])
                   (constructor deployer))
   \<and> sessionCount (transact (deployer, 50, CreateSession ''Election'' 100 200 [''Alice'', ''Bob'', ''Carol''])
                   (constructor deployer)) = 1
   \<and> candidateCount (votingSessions (transact (deployer, 50,
          CreateSession ''Election'' 100 200 [''Alice'', ''Bob'', ''Carol'']) (constructor deployer)) 1) = 3
   \<and> (\<exists>e. createSession deployer 50 ''Election'' 200 100 [''Alice'', ''Bob'', ''Carol''] (constructor deployer)
            = Inl e \<and> errorKindOf e = Some ValidationError)
   \<and> sessionCount (transact (deployer, 50, CreateSession ''Election'' 200 100 [''Alice'', ''Bob'', ''Carol''])
                   (constructor deployer)) = sessionCount (constructor deployer)"
proof -
  have o: "deployer = owner (constructor deployer)" by (simp add: constructor_def)
  have ok: "createSession deployer 50 ''Election'' 100 200 [''Alice'', ''Bob'', ''Carol''] (constructor deployer)
       = Inr (1, transact (deployer, 50, CreateSession ''Election'' 100 200 [''Alice'', ''Bob'', ''Carol''])
                   (constructor deployer))"
    by (simp add: contract_defs scenario_defs)
  note good = createSession_by_owner [OF o, where now = 50 and sname = "''Election''"
      and start = 100 and stop = 200 and names = "[''Alice'', ''Bob'', ''Carol'']" and sid = 1
      and s' = "transact (deployer, 50, CreateSession ''Election'' 100 200 [''Alice'', ''Bob'', ''Carol''])
                   (constructor deployer)"]
  note bad = createSession_by_owner [OF o, where now = 50 and sname = "''Election''"
      and start = 200 and stop = 100 and names = "[''Alice'', ''Bob'', ''Carol'']"]
  from good ok have p: "sessionCount (transact (deployer, 50,
          CreateSession ''Election'' 100 200 [''Alice'', ''Bob'', ''Carol'']) (constructor deployer))
        = sessionCount (constructor deployer) + 1"
    "candidateCount (votingSessions (transact (deployer, 50,
          CreateSession ''Election'' 100 200 [''Alice'', ''Bob'', ''Carol'']) (constructor deployer)) 1)
        = length [''Alice'', ''Bob'', ''Carol'']"
    by blast+
  have z: "sessionCount (constructor deployer) = 0" by (simp add: constructor_def)
  from bad have q: "(\<exists>e. createSession deployer 50 ''Election'' 200 100 [''Alice'', ''Bob'', ''Carol''] (constructor deployer)
            = Inl e \<and> errorKindOf e = Some ValidationError)
   \<and> sessionCount (transact (deployer, 50, CreateSession ''Election'' 200 100 [''Alice'', ''Bob'', ''Carol''])
                   (constructor deployer)) = sessionCount (constructor deployer)"
    by simp
  from o ok p q show ?thesis by (simp add: z)
qed

section \<open>Ending a session\<close>

text \<open>
  Claim C7. Called by the owner on an existing session, \<open>endSession\<close> succeeds whenever
  the active flag is set: it reads no clock, clears the flag, appends the \<open>SessionEnded\<close>
  event and changes nothing else. When the flag is not set it fails with the state error
  \<open>Session not active\<close>.
\<close>
theorem endSession_any_time:
  assumes "sender = owner s" and "existingSession s sid"
  shows "(isActive (votingSessions s sid) \<longrightarrow>
            endSession sender sid s =
              Inr (s\<lparr>votingSessions := (votingSessions s)
                        (sid := (votingSessions s sid)\<lparr>isActive := False\<rparr>),
                      events := events s @ [SessionEnded sid]\<rparr>))
       \<and> (\<not> isActive (votingSessions s sid) \<longrightarrow>
            endSession sender sid s = Inl (Revert ''Session not active'')
            \<and> errorKindOf (Revert ''Session not active'') = Some StateError)"
  using assms by (simp add: endSession_def onlyOwner_def sessionExists_eq kind_simps)

text \<open>
  Ending the running session succeeds; ending it a second time fails.
\<close>
theorem endSession_any_time_witness:
  "deployer = owner voted \<and> existingSession voted 1 \<and> isActive (votingSessions voted 1)
   \<and> endSession deployer 1 voted =
       Inr (voted\<lparr>votingSessions := (votingSessions voted)
                    (1 := (votingSessions voted 1)\<lparr>isActive := False\<rparr>),
                  events := events voted @ [SessionEnded 1]\<rparr>)
   \<and> deployer = owner closed \<and> existingSession closed 1 \<and> \<not> isActive (votingSessions closed 1)
   \<and> endSession deployer 1 closed = Inl (Revert ''Session not active'')"
proof -
  have a: "deployer = owner voted" "existingSession voted 1" "isActive (votingSessions voted 1)"
    by (simp_all add: contract_defs scenario_defs)
  have b: "deployer = owner closed" "existingSession closed 1" "\<not> isActive (votingSessions closed 1)"
    by (simp_all add: contract_defs scenario_defs)
  from a b endSession_any_time [OF a(1,2)] endSession_any_time [OF b(1,2)]
  show ?thesis by simp
qed

section \<open>Removing a candidate\<close>
lemma retired_dispatch:
  assumes "retired sid cid n s" "dispatch sender now c s = Inr s'"
  shows "retired sid cid n s'"
proof (cases c)
  case (CreateSession sname t0 t1 names)
  with assms(2) obtain k where "createSession sender now sname t0 t1 names s = Inr (k, s')"
    by (cases "createSession sender now sname t0 t1 names s") auto
  note r = createSession_Inr [OF this]
  from r assms(1) have "sid \<noteq> k" by (simp add: retired_def existingSession_def)
  with r have "votingSessions s' sid = votingSessions s sid" by simp
  with r assms(1) show ?thesis by (simp add: retired_def existingSession_def)
next
  case (AddCandidateToSession k cname)
  with assms show ?thesis
    by (auto simp add: retired_def existingSession_def dest!: addCandidateToSession_Inr split: if_splits)
next
  case (UpdateCandidate k cid' newName)
  with assms show ?thesis
    by (auto simp add: retired_def existingSession_def dest!: updateCandidate_Inr split: if_splits)
next
  case (RemoveCandidateFromSession k cid')
  with assms show ?thesis
    by (auto simp add: retired_def existingSession_def dest!: removeCandidateFromSession_Inr split: if_splits)
next
  case (StartSession k)
  with assms show ?thesis
    by (auto simp add: retired_def existingSession_def dest!: startSession_Inr split: if_splits)
next
  case (EndSession k)
  with assms show ?thesis
    by (auto simp add: retired_def existingSession_def dest!: endSession_Inr split: if_splits)
next
  case (RegisterVoter voter)
  with assms show ?thesis
    by (auto simp add: registerVoter_def onlyOwner_def retired_def existingSession_def
        split: if_splits)
next
  case (RegisterMultipleVoters voters)
  with assms show ?thesis
    by (auto simp add: registerMultipleVoters_def onlyOwner_def retired_def existingSession_def
        registerEach_frame split: if_splits)
next
  case RegisterSelf
  with assms show ?thesis
    by (auto simp add: registerSelf_def retired_def existingSession_def split: if_splits)
next
  case (Vote k cid')
  with assms show ?thesis
    by (auto simp add: retired_def existingSession_def dest!: vote_Inr split: if_splits)
qed

lemma retired_run: "retired sid cid n s \<Longrightarrow> retired sid cid n (run ts s)"
proof (induction ts arbitrary: s)
  case Nil
  then show ?case by simp
next
  case (Cons t ts)
  obtain sender now c where t: "t = (sender, now, c)" by (cases t)
  have "retired sid cid n (transact t s)"
    using Cons.prems retired_dispatch [of sid cid n s sender now c]
    by (simp add: transact_def t split: sum.splits)
  then show ?case using Cons.IH by simp
qed

lemma retired_vote:
  assumes "retired sid cid n s"
  shows "(\<exists>e. vote voter now sid cid s = Inl e)
       \<and> (registeredVoters s voter \<and> isSessionActive now s sid
            \<and> \<not> hasVoted (votingSessions s sid) voter \<longrightarrow>
          vote voter now sid cid s = Inl (Revert ''Candidate not active''))"
  using assms by (simp add: retired_def vote_def sessionExists_eq Let_def)

text \<open>
  Claim C8, amended. A successful \<open>removeCandidateFromSession\<close> clears the active flag of
  the targeted candidate and appends the \<open>CandidateRemoved\<close> event; the candidate's name and
  \<open>voteCount\<close>, every other candidate, \<open>totalVotes\<close> and the vote records are as before.
  In every state reached afterwards each \<open>vote\<close> naming that candidate fails, and it fails
  with the validation error \<open>Candidate not active\<close> when the caller is registered, the session
  is active and the caller has not voted in it (otherwise an earlier check of \<open>vote\<close>
  rejects the call); the candidate's \<open>voteCount\<close> stays what it was.
\<close>
theorem removeCandidate_frame:
  assumes "removeCandidateFromSession sender now sid cid s = Inr s'"
  shows "s' = s\<lparr>votingSessions := (votingSessions s)(sid := (votingSessions s sid)
                  \<lparr>candidates := (candidates (votingSessions s sid))
                     (cid := (candidates (votingSessions s sid) cid)\<lparr>isActive_c := False\<rparr>)\<rparr>),
                events := events s @ [CandidateRemoved sid cid]\<rparr>
       \<and> (\<exists>e. vote voter t sid cid (run us s') = Inl e)
       \<and> (registeredVoters (run us s') voter \<and> isSessionActive t (run us s') sid
            \<and> \<not> hasVoted (votingSessions (run us s') sid) voter \<longrightarrow>
          vote voter t sid cid (run us s') = Inl (Revert ''Candidate not active'')
          \<and> errorKindOf (Revert ''Candidate not active'') = Some ValidationError)
       \<and> voteCount (candidates (votingSessions (run us s') sid) cid)
           = voteCount (candidates (votingSessions s sid) cid)
       \<and> totalVotes (votingSessions s' sid) = totalVotes (votingSessions s sid)"
proof -
  note r = removeCandidateFromSession_Inr [OF assms]
  from r have e: "s' = s\<lparr>votingSessions := (votingSessions s)(sid := (votingSessions s sid)
                  \<lparr>candidates := (candidates (votingSessions s sid))
                     (cid := (candidates (votingSessions s sid) cid)\<lparr>isActive_c := False\<rparr>)\<rparr>),
                events := events s @ [CandidateRemoved sid cid]\<rparr>" by blast
  have "retired sid cid (voteCount (candidates (votingSessions s sid) cid)) s'"
    using r by (subst e) (simp add: retired_def existingSession_def)
  then have later: "retired sid cid (voteCount (candidates (votingSessions s sid) cid)) (run us s')"
    by (rule retired_run)
  have tv: "totalVotes (votingSessions s' sid) = totalVotes (votingSessions s sid)"
    by (subst e) simp
  from retired_vote [OF later, of voter t] later e tv show ?thesis
    by (simp add: retired_def kind_simps)
qed

text \<open>
  Bob (id 2) is removed from the ended session, with his one vote. After the session is
  started again, a vote of the owner for Bob fails with \<open>Candidate not active\<close>, and Bob
  still has one vote.
\<close>
theorem removeCandidate_frame_witness:
  "removeCandidateFromSession deployer 130 1 2 closed
     = Inr (transact (deployer, 130, RemoveCandidateFromSession 1 2) closed)
   \<and> registeredVoters (run [(deployer, 140, StartSession 1)]
        (transact (deployer, 130, RemoveCandidateFromSession 1 2) closed)) deployer
   \<and> isSessionActive 150 (run [(deployer, 140, StartSession 1)]
        (transact (deployer, 130, RemoveCandidateFromSession 1 2) closed)) 1
   \<and> \<not> hasVoted (votingSessions (run [(deployer, 140, StartSession 1)]
        (transact (deployer, 130, RemoveCandidateFromSession 1 2) closed)) 1) deployer
   \<and> vote deployer 150 1 2 (run [(deployer, 140, StartSession 1)]
        (transact (deployer, 130, RemoveCandidateFromSession 1 2) closed))
       = Inl (Revert ''Candidate not active'')
   \<and> voteCount (candidates (votingSessions (run [(deployer, 140, StartSession 1)]
        (transact (deployer, 130, RemoveCandidateFromSession 1 2) closed)) 1) 2) = 1"
proof -
  have r: "removeCandidateFromSession deployer 130 1 2 closed
     = Inr (transact (deployer, 130, RemoveCandidateFromSession 1 2) closed)"
    by (simp add: contract_defs scenario_defs)
  have p: "registeredVoters (run [(deployer, 140, StartSession 1)]
        (transact (deployer, 130, RemoveCandidateFromSession 1 2) closed)) deployer"
    "isSessionActive 150 (run [(deployer, 140, StartSession 1)]
        (transact (deployer, 130, RemoveCandidateFromSession 1 2) closed)) 1"
    "\<not> hasVoted (votingSessions (run [(deployer, 140, StartSession 1)]
        (transact (deployer, 130, RemoveCandidateFromSession 1 2) closed)) 1) deployer"
    by (simp_all add: contract_defs scenario_defs)
  have v: "voteCount (candidates (votingSessions closed 1) 2) = 1"
    by (simp add: contract_defs scenario_defs)
  note fr = removeCandidate_frame [OF r, of deployer 150 "[(deployer, 140, StartSession 1)]"]
  from fr p have v1: "vote deployer 150 1 2 (run [(deployer, 140, StartSession 1)]
        (transact (deployer, 130, RemoveCandidateFromSession 1 2) closed))
       = Inl (Revert ''Candidate not active'')"
    by blast
  from fr have "voteCount (candidates (votingSessions (run [(deployer, 140, StartSession 1)]
        (transact (deployer, 130, RemoveCandidateFromSession 1 2) closed)) 1) 2)
      = voteCount (candidates (votingSessions closed 1) 2)"
    by blast
  then have v2: "voteCount (candidates (votingSessions (run [(deployer, 140, StartSession 1)]
        (transact (deployer, 130, RemoveCandidateFromSession 1 2) closed)) 1) 2) = 1"
    by (simp only: v)
  from r p v1 v2 show ?thesis by blast
qed

text \<open>
  Claim C8 as stated fails right after the removal: the removal needs a session that is
  not active, so at that time a vote of the registered owner for the removed candidate
  fails with \<open>Session not active\<close>, a state error, not with a validation error.
\<close>
theorem vote_after_removal_counterexample:
  "removeCandidateFromSession deployer 130 1 2 closed
     = Inr (transact (deployer, 130, RemoveCandidateFromSession 1 2) closed)
   \<and> registeredVoters (transact (deployer, 130, RemoveCandidateFromSession 1 2) closed) deployer
   \<and> vote deployer 130 1 2 (transact (deployer, 130, RemoveCandidateFromSession 1 2) closed)
       = Inl (Revert ''Session not active'')
   \<and> errorKindOf (Revert ''Session not active'') = Some StateError"
  by (simp add: contract_defs scenario_defs errorKindOf_def)

section \<open>Candidates of an active session\<close>

text \<open>
  Claim C9, amended. Called by the owner, \<open>addCandidateToSession\<close>, \<open>updateCandidate\<close> and
  \<open>removeCandidateFromSession\<close> fail with the state error \<open>Cannot modify active session\<close>
  whenever \<open>isSessionActive\<close> holds for the session. On an existing session that is not
  active they succeed given their other preconditions (a non-empty name; a candidate id in
  range whose candidate is active; room for one more candidate), and none of them succeeds
  on an active session.
\<close>
theorem candidates_frozen_while_active:
  assumes "sender = owner s"
  shows "(isSessionActive now s sid \<longrightarrow>
            addCandidateToSession sender now sid cname s = Inl (Revert ''Cannot modify active session'')
          \<and> updateCandidate sender now sid cid newName s = Inl (Revert ''Cannot modify active session'')
          \<and> removeCandidateFromSession sender now sid cid s = Inl (Revert ''Cannot modify active session'')
          \<and> errorKindOf (Revert ''Cannot modify active session'') = Some StateError)
       \<and> (\<not> isSessionActive now s sid \<and> existingSession s sid \<longrightarrow>
            (cname \<noteq> [] \<and> candidateCount (votingSessions s sid) < MAX_UINT256 \<longrightarrow>
               (\<exists>s'. addCandidateToSession sender now sid cname s = Inr s'))
          \<and> (newName \<noteq> [] \<and> 0 < cid \<and> cid \<le> candidateCount (votingSessions s sid)
               \<and> isActive_c (candidates (votingSessions s sid) cid) \<longrightarrow>
               (\<exists>s'. updateCandidate sender now sid cid newName s = Inr s'))
          \<and> (0 < cid \<and> cid \<le> candidateCount (votingSessions s sid)
               \<and> isActive_c (candidates (votingSessions s sid) cid) \<longrightarrow>
               (\<exists>s'. removeCandidateFromSession sender now sid cid s = Inr s')))
       \<and> ((\<exists>s'. addCandidateToSession sender now sid cname s = Inr s')
            \<or> (\<exists>s'. updateCandidate sender now sid cid newName s = Inr s')
            \<or> (\<exists>s'. removeCandidateFromSession sender now sid cid s = Inr s')
          \<longrightarrow> \<not> isSessionActive now s sid)"
proof -
  have blocked: "isSessionActive now s sid \<Longrightarrow>
      onlyOwner sender s (sessionExists sid s (sessionNotActive now sid s body))
        = Inl (Revert ''Cannot modify active session'')" for body :: "error + storage"
    using assms isSessionActive_exists [of now s sid]
    by (simp add: onlyOwner_def sessionExists_eq sessionNotActive_def)
  have free: "\<not> isSessionActive now s sid \<Longrightarrow> existingSession s sid \<Longrightarrow>
      onlyOwner sender s (sessionExists sid s (sessionNotActive now sid s body)) = body"
    for body :: "error + storage"
    using assms by (simp add: onlyOwner_def sessionExists_eq sessionNotActive_def)
  show ?thesis
    unfolding addCandidateToSession_def updateCandidate_def removeCandidateFromSession_def
    by (auto simp add: blocked free kind_simps Let_def)
qed

text \<open>
  Inside the window of the started session all three calls of the owner fail; after the
  session is ended all three succeed.
\<close>
theorem candidates_frozen_while_active_witness:
  "deployer = owner opened \<and> isSessionActive 150 opened 1
   \<and> addCandidateToSession deployer 150 1 ''Dave'' opened = Inl (Revert ''Cannot modify active session'')
   \<and> updateCandidate deployer 150 1 1 ''Alicia'' opened = Inl (Revert ''Cannot modify active session'')
   \<and> removeCandidateFromSession deployer 150 1 1 opened = Inl (Revert ''Cannot modify active session'')
   \<and> deployer = owner closed \<and> \<not> isSessionActive 150 closed 1 \<and> existingSession closed 1
   \<and> (\<exists>s'. addCandidateToSession deployer 150 1 ''Dave'' closed = Inr s')
   \<and> (\<exists>s'. updateCandidate deployer 150 1 1 ''Alicia'' closed = Inr s')
   \<and> (\<exists>s'. removeCandidateFromSession deployer 150 1 1 closed = Inr s')"
proof -
  have a: "deployer = owner opened" "isSessionActive 150 opened 1"
    by (simp_all add: contract_defs scenario_defs)
  have b: "deployer = owner closed" "\<not> isSessionActive 150 closed 1" "existingSession closed 1"
    "candidateCount (votingSessions closed 1) < MAX_UINT256"
    "0 < (1::nat) \<and> 1 \<le> candidateCount (votingSessions closed 1)"
    "isActive_c (candidates (votingSessions closed 1) 1)"
    by (simp_all add: contract_defs scenario_defs)
  from a b
    candidates_frozen_while_active [OF a(1), of 150 1 "''Dave''" 1 "''Alicia''"]
    candidates_frozen_while_active [OF b(1), of 150 1 "''Dave''" 1 "''Alicia''"]
  show ?thesis by simp
qed

text \<open>
  Claim C9 as stated fails for a caller other than the owner: the \<^verbatim>\<open>onlyOwner\<close> modifier
  runs first, so on the active session the three calls of voter 2 fail with an
  authorisation error.
\<close>
theorem modify_by_stranger_counterexample:
  "isSessionActive 150 opened 1
   \<and> addCandidateToSession voterB 150 1 ''Dave'' opened
       = Inl (Revert ''Only owner can perform this action'')
   \<and> updateCandidate voterB 150 1 1 ''Alicia'' opened
       = Inl (Revert ''Only owner can perform this action'')
   \<and> removeCandidateFromSession voterB 150 1 1 opened
       = Inl (Revert ''Only owner can perform this action'')
   \<and> errorKindOf (Revert ''Only owner can perform this action'') = Some AuthError"
  by (simp add: contract_defs scenario_defs errorKindOf_def)

section \<open>No winner among the active candidates\<close>

text \<open>
  Claim C10. On an existing session with \<open>totalVotes > 0\<close> in which no active candidate
  has a positive \<open>voteCount\<close>, \<open>getSessionWinner\<close> returns \<open>(No winner, 0, False)\<close>.
  (The loop counter is a checked \<^verbatim>\<open>uint256\<close>: the scan needs \<open>candidateCount\<close> below the
  largest value.)
\<close>
theorem no_winner_without_active_votes:
  assumes "existingSession s sid" and "0 < totalVotes (votingSessions s sid)"
    and "\<forall>i. 1 \<le> i \<and> i \<le> candidateCount (votingSessions s sid)
             \<and> isActive_c (candidates (votingSessions s sid) i)
           \<longrightarrow> voteCount (candidates (votingSessions s sid) i) = 0"
    and "candidateCount (votingSessions s sid) < MAX_UINT256"
  shows "getSessionWinner s sid = Inr (''No winner'', 0, False)"
proof -
  from getSessionWinner_scan [OF assms(1,2,4)] obtain m w t where
    inv: "scanInv (candidates (votingSessions s sid)) (candidateCount (votingSessions s sid)) (m, w, t)"
    and res: "getSessionWinner s sid =
       (if w > 0 then Inr (name_c (candidates (votingSessions s sid) w), m, t > 1)
        else Inr (''No winner'', 0, False))"
    by blast
  have "w = 0"
  proof (rule ccontr)
    assume "w \<noteq> 0"
    with inv have "w \<in> activeIds (candidates (votingSessions s sid)) (candidateCount (votingSessions s sid))"
      and "0 < voteCount (candidates (votingSessions s sid) w)"
      by (simp_all add: scanInv_def)
    with assms(3) show False by (simp add: activeIds_def)
  qed
  with res show ?thesis by simp
qed

text \<open>
  After both candidates with votes have been removed, the function returns the sentinel.
\<close>
theorem no_winner_without_active_votes_witness:
  "existingSession removed 1 \<and> 0 < totalVotes (votingSessions removed 1)
   \<and> candidateCount (votingSessions removed 1) < MAX_UINT256
   \<and> getSessionWinner removed 1 = Inr (''No winner'', 0, False)"
proof -
  have a: "existingSession removed 1" "0 < totalVotes (votingSessions removed 1)"
    by (simp_all add: contract_defs scenario_defs)
  have n: "candidateCount (votingSessions removed 1) = 3"
    by (simp add: contract_defs scenario_defs)
  have c: "candidateCount (votingSessions removed 1) < MAX_UINT256"
    unfolding n by (simp add: MAX_UINT256_def)
  have three: "i = 1 \<or> i = 2 \<or> i = 3" if "1 \<le> i" "i \<le> 3" for i :: nat
    using that by arith
  have cands: "voteCount (candidates (votingSessions removed 1) 1) = 0"
    "\<not> isActive_c (candidates (votingSessions removed 1) 2)"
    "\<not> isActive_c (candidates (votingSessions removed 1) 3)"
    by (simp_all add: contract_defs scenario_defs)
  have z: "\<forall>i. 1 \<le> i \<and> i \<le> candidateCount (votingSessions removed 1)
             \<and> isActive_c (candidates (votingSessions removed 1) i)
           \<longrightarrow> voteCount (candidates (votingSessions removed 1) i) = 0"
    unfolding n using three cands by blast
  from a c no_winner_without_active_votes [OF a z c] show ?thesis by simp
qed

end
